theory Spec2Isabelle
  imports Complex_Main "HOL-Library.Word"
begin

section \<open>JavaScript values\<close>

text \<open>
  A JavaScript string is a sequence of 16-bit code units.  \<open>js\<close> turns an ASCII
  literal into such a sequence.
\<close>

type_synonym jstring = "16 word list"

definition js :: "string \<Rightarrow> jstring" where
  "js s = map (\<lambda>c. of_nat (of_char c)) s"

text \<open>
  The values that cross the program's boundaries untyped (\<open>any\<close>): what
  \<open>JSON.parse\<close> and \<open>response.json()\<close> hand back.  \<open>JUndefined\<close> is what reading a
  missing property gives.  A number carries its exact decimal value; rounding to
  binary64 is not represented, and no path of the program computes with a number.
\<close>

datatype jsval =
    JUndefined
  | JNull
  | JBool bool
  | JNum rat
  | JStr jstring
  | JArr "jsval list"
  | JObj "(jstring \<times> jsval) list"

text \<open>
  What a \<open>throw\<close> carries.  \<open>InvariantFailed\<close> is the error of \<open>tiny-invariant\<close>
  with the message it was given; \<open>Thrown\<close> is any other value a collaborator throws.
\<close>

datatype js_error = TypeError | SyntaxError | InvariantFailed jstring | Thrown jstring

text \<open>Truthiness, as \<open>!v\<close> and \<open>v || d\<close> test it.\<close>

fun truthy :: "jsval \<Rightarrow> bool" where
  "truthy JUndefined = False"
| "truthy JNull = False"
| "truthy (JBool b) = b"
| "truthy (JNum n) = (n \<noteq> 0)"
| "truthy (JStr s) = (s \<noteq> [])"
| "truthy (JArr xs) = True"
| "truthy (JObj ms) = True"

text \<open>
  Member access \<open>v.k\<close> for the property names the program reads (\<open>data\<close>, \<open>nodes\<close>,
  \<open>products\<close>, \<open>id\<close>, \<open>title\<close>, \<open>handle\<close>, \<open>featuredImage\<close>, \<open>url\<close>, \<open>session\<close>): a
  \<open>TypeError\<close> on \<open>undefined\<close> and \<open>null\<close>, the last binding of the key in an
  object, \<open>undefined\<close> otherwise (no prototype defines these names).
\<close>

fun get_prop :: "jsval \<Rightarrow> jstring \<Rightarrow> js_error + jsval" where
  "get_prop JUndefined k = Inl TypeError"
| "get_prop JNull k = Inl TypeError"
| "get_prop (JObj ms) k = Inr (case map_of (rev ms) k of None \<Rightarrow> JUndefined | Some v \<Rightarrow> v)"
| "get_prop v k = Inr JUndefined"

text \<open>\<open>v || []\<close>.\<close>

definition or_empty :: "jsval \<Rightarrow> jsval" where
  "or_empty v = (if truthy v then v else JArr [])"

text \<open>
  The receiver of \<open>.filter(...)\<close> and \<open>.map(...)\<close>: only an array has these methods;
  on any other value the call throws a \<open>TypeError\<close>.
\<close>

fun array_of :: "jsval \<Rightarrow> js_error + jsval list" where
  "array_of (JArr xs) = Inr xs"
| "array_of v = Inl TypeError"

text \<open>\<open>xs.map(f)\<close> where \<open>f\<close> may throw: the first exception ends the loop.\<close>

fun map_throw :: "('a \<Rightarrow> js_error + 'b) \<Rightarrow> 'a list \<Rightarrow> js_error + 'b list" where
  "map_throw f [] = Inr []"
| "map_throw f (x # xs) =
     (case f x of
        Inl e \<Rightarrow> Inl e
      | Inr y \<Rightarrow> (case map_throw f xs of Inl e \<Rightarrow> Inl e | Inr ys \<Rightarrow> Inr (y # ys)))"

section \<open>\<open>JSON.stringify\<close> on an array of strings\<close>

text \<open>
  ECMAScript \<open>QuoteJSONString\<close>: the two-character escapes of the table, \<open>\uXXXX\<close>
  (lower-case hexadecimal) for the other control characters and for a surrogate
  without its partner, and every other code point as it is.  A leading surrogate
  followed by a trailing one is one code point and is copied.
\<close>

definition is_lead :: "16 word \<Rightarrow> bool" where
  "is_lead c = (0xD800 \<le> c \<and> c \<le> 0xDBFF)"

definition is_trail :: "16 word \<Rightarrow> bool" where
  "is_trail c = (0xDC00 \<le> c \<and> c \<le> 0xDFFF)"

definition hex_digit :: "nat \<Rightarrow> 16 word" where
  "hex_digit n = (if n < 10 then of_nat (48 + n) else of_nat (87 + n))"

definition unicode_escape :: "16 word \<Rightarrow> jstring" where
  "unicode_escape c =
     [0x5C, 0x75, hex_digit (unat c div 4096), hex_digit (unat c div 256 mod 16),
      hex_digit (unat c div 16 mod 16), hex_digit (unat c mod 16)]"

definition quote_unit :: "16 word \<Rightarrow> jstring" where
  "quote_unit c =
     (if c = 0x08 then [0x5C, 0x62]
      else if c = 0x09 then [0x5C, 0x74]
      else if c = 0x0A then [0x5C, 0x6E]
      else if c = 0x0C then [0x5C, 0x66]
      else if c = 0x0D then [0x5C, 0x72]
      else if c = 0x22 then [0x5C, 0x22]
      else if c = 0x5C then [0x5C, 0x5C]
      else if c < 0x20 \<or> is_lead c \<or> is_trail c then unicode_escape c
      else [c])"

fun quote_body :: "jstring \<Rightarrow> jstring" where
  "quote_body [] = []"
| "quote_body [c] = quote_unit c"
| "quote_body (c # d # cs) =
     (if is_lead c \<and> is_trail d then c # d # quote_body cs
      else quote_unit c @ quote_body (d # cs))"

definition QuoteJSONString :: "jstring \<Rightarrow> jstring" where
  "QuoteJSONString s = 0x22 # quote_body s @ [0x22]"

fun join_comma :: "jstring list \<Rightarrow> jstring" where
  "join_comma [] = []"
| "join_comma [x] = x"
| "join_comma (x # y # ys) = x @ 0x2C # join_comma (y # ys)"

text \<open>
  \<open>JSON.stringify(productIds)\<close> for \<open>productIds: string[]\<close> and no indentation: the
  quoted elements between brackets, separated by commas.
\<close>

definition JSON_stringify :: "jstring list \<Rightarrow> jstring" where
  "JSON_stringify xs = 0x5B # join_comma (map QuoteJSONString xs) @ [0x5D]"

section \<open>\<open>JSON.parse\<close>\<close>

text \<open>
  The JSON grammar of ECMAScript, in two passes: a lexer over code units and a
  pushdown recogniser over tokens.  A text outside the grammar throws a
  \<open>SyntaxError\<close>.
\<close>

datatype token =
    TLBrack | TRBrack | TLBrace | TRBrace | TComma | TColon
  | TStr jstring | TNum rat | TTrue | TFalse | TNull

subsection \<open>Strings\<close>

definition hex_val :: "16 word \<Rightarrow> nat option" where
  "hex_val c =
     (if 0x30 \<le> c \<and> c \<le> 0x39 then Some (unat c - 48)
      else if 0x41 \<le> c \<and> c \<le> 0x46 then Some (unat c - 55)
      else if 0x61 \<le> c \<and> c \<le> 0x66 then Some (unat c - 87)
      else None)"

definition hex4 :: "16 word \<Rightarrow> 16 word \<Rightarrow> 16 word \<Rightarrow> 16 word \<Rightarrow> 16 word option" where
  "hex4 h1 h2 h3 h4 =
     (case (hex_val h1, hex_val h2, hex_val h3, hex_val h4) of
        (Some a, Some b, Some c, Some d) \<Rightarrow> Some (of_nat (((a * 16 + b) * 16 + c) * 16 + d))
      | _ \<Rightarrow> None)"

text \<open>The character after a backslash: \<open>" / \ b f n r t\<close>.\<close>

definition unescape :: "16 word \<Rightarrow> 16 word option" where
  "unescape e =
     (if e = 0x22 then Some 0x22
      else if e = 0x2F then Some 0x2F
      else if e = 0x5C then Some 0x5C
      else if e = 0x62 then Some 0x08
      else if e = 0x66 then Some 0x0C
      else if e = 0x6E then Some 0x0A
      else if e = 0x72 then Some 0x0D
      else if e = 0x74 then Some 0x09
      else None)"

definition consS :: "16 word \<Rightarrow> (jstring \<times> jstring) option \<Rightarrow> (jstring \<times> jstring) option" where
  "consS u r = (case r of None \<Rightarrow> None | Some (s, rest) \<Rightarrow> Some (u # s, rest))"

text \<open>
  The characters of a string after its opening quote, up to the closing one: the
  decoded string and the rest of the input.  A raw control character, an unknown
  escape and a missing closing quote are errors.
\<close>

fun string_body :: "jstring \<Rightarrow> (jstring \<times> jstring) option" where
  "string_body [] = None"
| "string_body (c # cs) =
     (if c = 0x22 then Some ([], cs)
      else if c = 0x5C then
        (case cs of
           [] \<Rightarrow> None
         | e # es \<Rightarrow>
             if e = 0x75 then
               (case es of
                  h1 # h2 # h3 # h4 # rest \<Rightarrow>
                    (case hex4 h1 h2 h3 h4 of
                       None \<Rightarrow> None
                     | Some u \<Rightarrow> consS u (string_body rest))
                | _ \<Rightarrow> None)
             else
               (case unescape e of
                  None \<Rightarrow> None
                | Some u \<Rightarrow> consS u (string_body es)))
      else if c < 0x20 then None
      else consS c (string_body cs))"

subsection \<open>Numbers\<close>

text \<open>\<open>-? (0 | [1-9][0-9]*) (. [0-9]+)? ([eE] [+-]? [0-9]+)?\<close>\<close>

definition is_digit :: "16 word \<Rightarrow> bool" where
  "is_digit c = (0x30 \<le> c \<and> c \<le> 0x39)"

definition digits_val :: "jstring \<Rightarrow> nat" where
  "digits_val ds = foldl (\<lambda>a d. 10 * a + (unat d - 48)) 0 ds"

definition lex_int :: "jstring \<Rightarrow> (jstring \<times> jstring) option" where
  "lex_int cs =
     (case cs of
        [] \<Rightarrow> None
      | d # r \<Rightarrow>
          if d = 0x30 then Some ([d], r)
          else if is_digit d then Some (takeWhile is_digit cs, dropWhile is_digit cs)
          else None)"

definition lex_frac :: "jstring \<Rightarrow> (jstring \<times> jstring) option" where
  "lex_frac cs =
     (case cs of
        [] \<Rightarrow> Some ([], cs)
      | p # r \<Rightarrow>
          if p = 0x2E then
            (if takeWhile is_digit r = [] then None
             else Some (takeWhile is_digit r, dropWhile is_digit r))
          else Some ([], cs))"

definition lex_exp_digits :: "bool \<Rightarrow> jstring \<Rightarrow> (int \<times> jstring) option" where
  "lex_exp_digits neg cs =
     (if takeWhile is_digit cs = [] then None
      else Some ((if neg then - int (digits_val (takeWhile is_digit cs))
                  else int (digits_val (takeWhile is_digit cs))),
                 dropWhile is_digit cs))"

definition lex_exp :: "jstring \<Rightarrow> (int \<times> jstring) option" where
  "lex_exp cs =
     (case cs of
        [] \<Rightarrow> Some (0, cs)
      | e # r \<Rightarrow>
          if e = 0x65 \<or> e = 0x45 then
            (case r of
               [] \<Rightarrow> None
             | g # r' \<Rightarrow>
                 if g = 0x2B then lex_exp_digits False r'
                 else if g = 0x2D then lex_exp_digits True r'
                 else lex_exp_digits False r)
          else Some (0, cs))"

definition number_value :: "bool \<Rightarrow> jstring \<Rightarrow> jstring \<Rightarrow> int \<Rightarrow> rat" where
  "number_value neg ip fp ex =
     (let m = of_nat (digits_val (ip @ fp)) / 10 ^ length fp;
          v = (if 0 \<le> ex then m * 10 ^ nat ex else m / 10 ^ nat (- ex))
      in if neg then - v else v)"

definition lex_unsigned :: "bool \<Rightarrow> jstring \<Rightarrow> (rat \<times> jstring) option" where
  "lex_unsigned neg cs =
     (case lex_int cs of
        None \<Rightarrow> None
      | Some (ip, r1) \<Rightarrow>
          (case lex_frac r1 of
             None \<Rightarrow> None
           | Some (fp, r2) \<Rightarrow>
               (case lex_exp r2 of
                  None \<Rightarrow> None
                | Some (ex, r3) \<Rightarrow> Some (number_value neg ip fp ex, r3))))"

definition lex_number :: "jstring \<Rightarrow> (rat \<times> jstring) option" where
  "lex_number cs =
     (case cs of
        [] \<Rightarrow> None
      | c # r \<Rightarrow> if c = 0x2D then lex_unsigned True r else lex_unsigned False cs)"

subsection \<open>Tokens\<close>

fun strip_prefix :: "jstring \<Rightarrow> jstring \<Rightarrow> jstring option" where
  "strip_prefix [] ys = Some ys"
| "strip_prefix (x # xs) [] = None"
| "strip_prefix (x # xs) (y # ys) = (if x = y then strip_prefix xs ys else None)"

definition is_ws :: "16 word \<Rightarrow> bool" where
  "is_ws c = (c = 0x20 \<or> c = 0x09 \<or> c = 0x0A \<or> c = 0x0D)"

definition consT :: "token \<Rightarrow> token list option \<Rightarrow> token list option" where
  "consT t r = (case r of None \<Rightarrow> None | Some ts \<Rightarrow> Some (t # ts))"

text \<open>Each sub-lexer consumes input, which is what makes the lexer terminate.\<close>

lemma string_body_length: "string_body cs = Some (s, rest) \<Longrightarrow> length rest < length cs"
proof (induction cs arbitrary: s rest rule: string_body.induct)
  case 1
  then show ?case by simp
next
  case (2 c cs)
  then show ?case
    by (fastforce simp: consS_def split: if_splits list.splits option.splits prod.splits)
qed

lemma strip_prefix_length: "strip_prefix p cs = Some r \<Longrightarrow> length r \<le> length cs"
  by (induction p cs rule: strip_prefix.induct) (auto split: if_splits)

lemma lex_int_length: "lex_int cs = Some (ds, r) \<Longrightarrow> length r < length cs"
proof -
  assume a: "lex_int cs = Some (ds, r)"
  then obtain d t where cs: "cs = d # t" by (cases cs) (auto simp: lex_int_def)
  show ?thesis
  proof (cases "d = 0x30")
    case True
    with a cs show ?thesis by (simp add: lex_int_def)
  next
    case False
    with a cs have "is_digit d" and "r = dropWhile is_digit t"
      by (auto simp: lex_int_def split: if_splits)
    then show ?thesis using cs length_dropWhile_le [of is_digit t] by simp
  qed
qed

lemma lex_frac_length: "lex_frac cs = Some (ds, r) \<Longrightarrow> length r \<le> length cs"
  using length_dropWhile_le [of is_digit "tl cs"]
  by (auto simp: lex_frac_def split: list.splits if_splits)

lemma lex_exp_digits_length: "lex_exp_digits b cs = Some (e, r) \<Longrightarrow> length r \<le> length cs"
  using length_dropWhile_le [of is_digit cs]
  by (auto simp: lex_exp_digits_def split: if_splits)

lemma lex_exp_length: "lex_exp cs = Some (e, r) \<Longrightarrow> length r \<le> length cs"
  by (auto simp: lex_exp_def split: list.splits if_splits dest!: lex_exp_digits_length)

lemma lex_unsigned_length: "lex_unsigned b cs = Some (v, r) \<Longrightarrow> length r < length cs"
  by (auto simp: lex_unsigned_def split: option.splits prod.splits
      dest!: lex_int_length lex_frac_length lex_exp_length)

lemma lex_number_length: "lex_number cs = Some (v, r) \<Longrightarrow> length r < length cs"
  by (auto simp: lex_number_def split: list.splits if_splits dest!: lex_unsigned_length)

function lex :: "jstring \<Rightarrow> token list option" where
  "lex [] = Some []"
| "lex (c # cs) =
     (if is_ws c then lex cs
      else if c = 0x5B then consT TLBrack (lex cs)
      else if c = 0x5D then consT TRBrack (lex cs)
      else if c = 0x7B then consT TLBrace (lex cs)
      else if c = 0x7D then consT TRBrace (lex cs)
      else if c = 0x2C then consT TComma (lex cs)
      else if c = 0x3A then consT TColon (lex cs)
      else if c = 0x22 then
        (case string_body cs of
           None \<Rightarrow> None
         | Some (s, rest) \<Rightarrow> consT (TStr s) (lex rest))
      else if c = 0x74 then
        (case strip_prefix (js ''rue'') cs of
           None \<Rightarrow> None
         | Some rest \<Rightarrow> consT TTrue (lex rest))
      else if c = 0x66 then
        (case strip_prefix (js ''alse'') cs of
           None \<Rightarrow> None
         | Some rest \<Rightarrow> consT TFalse (lex rest))
      else if c = 0x6E then
        (case strip_prefix (js ''ull'') cs of
           None \<Rightarrow> None
         | Some rest \<Rightarrow> consT TNull (lex rest))
      else
        (case lex_number (c # cs) of
           None \<Rightarrow> None
         | Some (v, rest) \<Rightarrow> consT (TNum v) (lex rest)))"
  by pat_completeness auto
termination
proof (relation "measure length")
  show "wf (measure length)" by simp
qed (auto dest: string_body_length strip_prefix_length lex_number_length simp: less_Suc_eq_le)

subsection \<open>Values\<close>

text \<open>
  The recogniser keeps a stack of the containers that are open: an array with its
  elements so far, an object with its members so far, an object whose next value
  belongs to a key.  All three hold their contents newest first.
\<close>

datatype frame =
    FArr "jsval list"
  | FObj "(jstring \<times> jsval) list"
  | FKey "(jstring \<times> jsval) list" jstring

datatype pstate = PValue | PFirstElem | PFirstKey | PKey | PColon | PAfter | PDone jsval

fun push_value :: "jsval \<Rightarrow> frame list \<Rightarrow> (pstate \<times> frame list) option" where
  "push_value v [] = Some (PDone v, [])"
| "push_value v (FArr es # st) = Some (PAfter, FArr (v # es) # st)"
| "push_value v (FKey ms k # st) = Some (PAfter, FObj ((k, v) # ms) # st)"
| "push_value v (FObj ms # st) = None"

fun start_value :: "token \<Rightarrow> frame list \<Rightarrow> (pstate \<times> frame list) option" where
  "start_value (TStr s) st = push_value (JStr s) st"
| "start_value (TNum n) st = push_value (JNum n) st"
| "start_value TTrue st = push_value (JBool True) st"
| "start_value TFalse st = push_value (JBool False) st"
| "start_value TNull st = push_value JNull st"
| "start_value TLBrack st = Some (PFirstElem, FArr [] # st)"
| "start_value TLBrace st = Some (PFirstKey, FObj [] # st)"
| "start_value _ st = None"

fun pstep :: "pstate \<Rightarrow> frame list \<Rightarrow> token \<Rightarrow> (pstate \<times> frame list) option" where
  "pstep PValue st t = start_value t st"
| "pstep PFirstElem (FArr es # st) TRBrack = push_value (JArr (rev es)) st"
| "pstep PFirstElem st t = start_value t st"
| "pstep PFirstKey (FObj ms # st) TRBrace = push_value (JObj (rev ms)) st"
| "pstep PFirstKey (FObj ms # st) (TStr k) = Some (PColon, FKey ms k # st)"
| "pstep PKey (FObj ms # st) (TStr k) = Some (PColon, FKey ms k # st)"
| "pstep PColon st TColon = Some (PValue, st)"
| "pstep PAfter (FArr es # st) TComma = Some (PValue, FArr es # st)"
| "pstep PAfter (FArr es # st) TRBrack = push_value (JArr (rev es)) st"
| "pstep PAfter (FObj ms # st) TComma = Some (PKey, FObj ms # st)"
| "pstep PAfter (FObj ms # st) TRBrace = push_value (JObj (rev ms)) st"
| "pstep _ _ _ = None"

fun parse_tokens :: "pstate \<Rightarrow> frame list \<Rightarrow> token list \<Rightarrow> jsval option" where
  "parse_tokens (PDone v) st [] = Some v"
| "parse_tokens s st [] = None"
| "parse_tokens s st (t # ts) =
     (case pstep s st t of
        None \<Rightarrow> None
      | Some (s', st') \<Rightarrow> parse_tokens s' st' ts)"

definition JSON_parse :: "jstring \<Rightarrow> js_error + jsval" where
  "JSON_parse text =
     (case lex text of
        None \<Rightarrow> Inl SyntaxError
      | Some ts \<Rightarrow>
          (case parse_tokens PValue [] ts of
             None \<Rightarrow> Inl SyntaxError
           | Some v \<Rightarrow> Inr v))"

section \<open>The data of \<open>app/models/Upsell.server.ts\<close>\<close>

text \<open>
  \<open>UpsellGroupFromDB\<close>, \<open>ProductData\<close> and \<open>EnrichedUpsellGroup\<close>.  A \<open>Date\<close> is its
  time value.  The fields of a product come from an untyped response, so they are
  values of any kind; \<open>imageUrl\<close> is \<open>undefined\<close> when there is no featured image.
\<close>

record UpsellGroupFromDB =
  g_id :: int
  g_title :: jstring
  g_shop :: jstring
  g_productIds :: jstring
  g_createdAt :: nat

record ProductData =
  p_id :: jsval
  p_title :: jsval
  p_imageUrl :: jsval
  p_handle :: jsval

record EnrichedUpsellGroup =
  e_id :: int
  e_title :: jstring
  e_shop :: jstring
  e_createdAt :: nat
  e_products :: "ProductData list"

section \<open>\<open>validateUpsellGroup\<close>\<close>

text \<open>
  The argument \<open>{title, productIds}\<close>.  Both fields are declared present, and both
  checks of the function also cover a field that is absent at run time
  (\<open>undefined\<close>), which is \<open>None\<close> here.
\<close>

record upsell_data =
  d_title :: "jstring option"
  d_productIds :: "jstring list option"

text \<open>The error object \<open>{title?: string; products?: string}\<close>.\<close>

record validation_errors =
  err_title :: "jstring option"
  err_products :: "jstring option"

text \<open>\<open>!title\<close> is false exactly for a string that is present and not empty.\<close>

definition truthy_string :: "jstring option \<Rightarrow> bool" where
  "truthy_string t = (case t of None \<Rightarrow> False | Some s \<Rightarrow> s \<noteq> [])"

text \<open>\<open>productIds && productIds.length > 0\<close>\<close>

definition nonempty_array :: "jstring list option \<Rightarrow> bool" where
  "nonempty_array ps = (case ps of None \<Rightarrow> False | Some xs \<Rightarrow> 0 < length xs)"

text \<open>\<open>Object.keys(errors)\<close>\<close>

definition error_keys :: "validation_errors \<Rightarrow> jstring list" where
  "error_keys errors =
     (case err_title errors of None \<Rightarrow> [] | Some m \<Rightarrow> [js ''title''])
     @ (case err_products errors of None \<Rightarrow> [] | Some m \<Rightarrow> [js ''products''])"

text \<open>The result is \<open>None\<close> where the function falls off its end (\<open>undefined\<close>).\<close>

definition validateUpsellGroup :: "upsell_data \<Rightarrow> validation_errors option" where
  "validateUpsellGroup data =
     (let errors0 = \<lparr>err_title = None, err_products = None\<rparr>;
          errors1 = (if \<not> truthy_string (d_title data)
                     then errors0\<lparr>err_title := Some (js ''Title is required'')\<rparr>
                     else errors0);
          errors2 = (if \<not> nonempty_array (d_productIds data)
                     then errors1\<lparr>err_products := Some (js ''At least one product is required'')\<rparr>
                     else errors1)
      in if length (error_keys errors2) \<noteq> 0 then Some errors2 else None)"

section \<open>The record store\<close>

text \<open>
  The table \<open>UpsellGroup\<close> behind \<open>db.upsellGroup\<close>: its rows in insertion order,
  the largest identifier ever handed out, and the clock that stamps \<open>createdAt\<close>.
\<close>

record db_state =
  db_rows :: "UpsellGroupFromDB list"
  db_seq :: int
  db_clock :: nat

definition last_id :: "db_state \<Rightarrow> int" where
  "last_id st = fold max (map g_id (db_rows st)) (db_seq st)"

definition matches :: "int \<Rightarrow> jstring \<Rightarrow> UpsellGroupFromDB \<Rightarrow> bool" where
  "matches i shop r = (g_id r = i \<and> g_shop r = shop)"

text \<open>
  Modelled from the spec: the store client \<open>db\<close> (\<open>../db.server\<close>) is not among the
  sources.  \<open>create\<close> inserts a record whose \<open>id\<close> is unique and assigned by the
  store (auto-incrementing, so larger than every identifier in use or used
  before) and whose \<open>createdAt\<close> is set once, to the time of the insertion; it
  returns the stored record.
\<close>

definition db_create :: "jstring \<Rightarrow> jstring \<Rightarrow> jstring \<Rightarrow> db_state \<Rightarrow> UpsellGroupFromDB \<times> db_state" where
  "db_create shop title productIds st =
     (let r = \<lparr>g_id = last_id st + 1, g_title = title, g_shop = shop,
                g_productIds = productIds, g_createdAt = db_clock st\<rparr>
      in (r, st\<lparr>db_rows := db_rows st @ [r], db_seq := last_id st + 1\<rparr>))"

text \<open>
  Modelled from the spec: \<open>findFirst\<close> with \<open>where: {id, shop}\<close> looks a record up by
  both fields and gives \<open>null\<close> (\<open>None\<close>) when there is none.
\<close>

definition db_findFirst :: "int \<Rightarrow> jstring \<Rightarrow> db_state \<Rightarrow> UpsellGroupFromDB option" where
  "db_findFirst i shop st = find (matches i shop) (db_rows st)"

text \<open>
  Modelled from the spec: \<open>findMany\<close> with \<open>where: {shop}\<close> and
  \<open>orderBy: {id: "desc"}\<close> gives all records of the shop, ordered by descending
  \<open>id\<close>.
\<close>

definition db_findMany :: "jstring \<Rightarrow> db_state \<Rightarrow> UpsellGroupFromDB list" where
  "db_findMany shop st =
     sort_key (\<lambda>r. - g_id r) (filter (\<lambda>r. g_shop r = shop) (db_rows st))"

text \<open>
  Modelled from the spec: \<open>updateMany\<close> with \<open>where: {id, shop}\<close> replaces \<open>title\<close> and
  \<open>productIds\<close> in the rows that match both fields, and in no other row.
\<close>

definition db_updateMany :: "int \<Rightarrow> jstring \<Rightarrow> jstring \<Rightarrow> jstring \<Rightarrow> db_state \<Rightarrow> db_state" where
  "db_updateMany i shop title productIds st =
     st\<lparr>db_rows :=
          map (\<lambda>r. if matches i shop r then r\<lparr>g_title := title, g_productIds := productIds\<rparr> else r)
            (db_rows st)\<rparr>"

text \<open>
  Modelled from the spec: \<open>deleteMany\<close> with \<open>where: {id, shop}\<close> removes the rows that
  match both fields, and no other row.
\<close>

definition db_deleteMany :: "int \<Rightarrow> jstring \<Rightarrow> db_state \<Rightarrow> db_state" where
  "db_deleteMany i shop st = st\<lparr>db_rows := filter (\<lambda>r. \<not> matches i shop r) (db_rows st)\<rparr>"

section \<open>The catalog client\<close>

text \<open>
  A call \<open>adminClient.graphql(query, {variables})\<close>.  The program sends two
  documents: \<open>getProductNodes\<close>, which asks for \<open>nodes(ids: $ids)\<close>, with the
  variable \<open>ids\<close>; and \<open>searchProducts\<close>, which asks for
  \<open>products(first: n, query: $query)\<close>, with the page size \<open>n\<close> written in the
  document and the variable \<open>query\<close>.
\<close>

datatype gql_request = GetProductNodes jsval | SearchProducts nat jstring

text \<open>
  The response \<open>{json: () => Promise<any>}\<close>: \<open>json()\<close> gives a value or throws.
\<close>

record gql_response =
  json :: "js_error + jsval"

text \<open>
  \<open>AdminApiContext\<close>.  The client is outside the program: what \<open>graphql\<close> answers,
  a response or an exception, may depend on the request and on the requests made
  before it.
\<close>

record AdminApiContext =
  graphql :: "gql_request list \<Rightarrow> gql_request \<Rightarrow> js_error + gql_response"

section \<open>The service functions\<close>

text \<open>
  \<open>invariant(condition, message)\<close> of \<open>tiny-invariant\<close> throws when the condition is
  falsy.
\<close>

definition invariant :: "bool \<Rightarrow> jstring \<Rightarrow> js_error + unit" where
  "invariant condition message = (if condition then Inr () else Inl (InvariantFailed message))"

text \<open>
  The value of an argument after the assertion on it has passed; the assertion
  excludes \<open>None\<close>.
\<close>

definition asserted :: "'a list option \<Rightarrow> 'a list" where
  "asserted v = (case v of None \<Rightarrow> [] | Some x \<Rightarrow> x)"

text \<open>
  A function that writes returns what it returns or throws, and the store as it
  leaves it.  As in \<open>validateUpsellGroup\<close>, \<open>title\<close> and \<open>productIds\<close> are \<open>None\<close>
  when they are absent at run time, which both assertions reject.
\<close>

definition createUpsellGroup ::
  "jstring \<Rightarrow> jstring option \<Rightarrow> jstring list option \<Rightarrow> db_state
     \<Rightarrow> (js_error + UpsellGroupFromDB) \<times> db_state" where
  "createUpsellGroup shop title productIds st =
     (case invariant (truthy_string title) (js ''Title is required'') of
        Inl e \<Rightarrow> (Inl e, st)
      | Inr u \<Rightarrow>
          (case invariant (nonempty_array productIds) (js ''Products are required'') of
             Inl e \<Rightarrow> (Inl e, st)
           | Inr u' \<Rightarrow>
               (let (newGroup, st') =
                      db_create shop (asserted title) (JSON_stringify (asserted productIds)) st
                in (Inr newGroup, st'))))"

definition updateUpsellGroup ::
  "int \<Rightarrow> jstring \<Rightarrow> upsell_data \<Rightarrow> db_state
     \<Rightarrow> (js_error + UpsellGroupFromDB option) \<times> db_state" where
  "updateUpsellGroup i shop data st =
     (case invariant (truthy_string (d_title data)) (js ''Title is required'') of
        Inl e \<Rightarrow> (Inl e, st)
      | Inr u \<Rightarrow>
          (case invariant (nonempty_array (d_productIds data)) (js ''Products are required'') of
             Inl e \<Rightarrow> (Inl e, st)
           | Inr u' \<Rightarrow>
               (let st' = db_updateMany i shop (asserted (d_title data))
                            (JSON_stringify (asserted (d_productIds data))) st;
                    updatedGroup = db_findFirst i shop st'
                in (Inr updatedGroup, st'))))"

record ack =
  success :: bool

definition deleteUpsellGroup :: "int \<Rightarrow> jstring \<Rightarrow> db_state \<Rightarrow> ack \<times> db_state" where
  "deleteUpsellGroup i shop st = (\<lparr>success = True\<rparr>, db_deleteMany i shop st)"

subsection \<open>Enrichment\<close>

text \<open>
  The object built for one node: \<open>node.id\<close>, \<open>node.title\<close>, \<open>node.handle\<close> and
  \<open>node.featuredImage?.url\<close>, read in this order.
\<close>

definition format_product :: "jsval \<Rightarrow> js_error + ProductData" where
  "format_product node =
     (case get_prop node (js ''id'') of
        Inl e \<Rightarrow> Inl e
      | Inr i \<Rightarrow>
          (case get_prop node (js ''title'') of
             Inl e \<Rightarrow> Inl e
           | Inr t \<Rightarrow>
               (case get_prop node (js ''handle'') of
                  Inl e \<Rightarrow> Inl e
                | Inr h \<Rightarrow>
                    (case get_prop node (js ''featuredImage'') of
                       Inl e \<Rightarrow> Inl e
                     | Inr fi \<Rightarrow>
                         (case (if fi = JUndefined \<or> fi = JNull then Inr JUndefined
                                else get_prop fi (js ''url'')) of
                            Inl e \<Rightarrow> Inl e
                          | Inr u \<Rightarrow>
                              Inr \<lparr>p_id = i, p_title = t, p_imageUrl = u, p_handle = h\<rparr>)))))"

text \<open>
  Step 4 of \<open>supplementUpsellGroup\<close>, from the decoded response to the products:
  \<open>responseJson.data.nodes || []\<close>, the nodes other than \<open>null\<close>, each formatted.
\<close>

definition node_products :: "jsval \<Rightarrow> js_error + ProductData list" where
  "node_products responseJson =
     (case get_prop responseJson (js ''data'') of
        Inl e \<Rightarrow> Inl e
      | Inr d \<Rightarrow>
          (case get_prop d (js ''nodes'') of
             Inl e \<Rightarrow> Inl e
           | Inr nodes \<Rightarrow>
               (case array_of (or_empty nodes) of
                  Inl e \<Rightarrow> Inl e
                | Inr productNodes \<Rightarrow>
                    map_throw format_product (filter (\<lambda>node. node \<noteq> JNull) productNodes))))"

text \<open>
  The body of the \<open>try\<close> block: the products or the exception, and the requests
  made to the catalog so far.
\<close>

definition supplement_try ::
  "UpsellGroupFromDB \<Rightarrow> AdminApiContext \<Rightarrow> gql_request list
     \<Rightarrow> (js_error + ProductData list) \<times> gql_request list" where
  "supplement_try grp adminClient calls =
     (case JSON_parse (g_productIds grp) of
        Inl e \<Rightarrow> (Inl e, calls)
      | Inr productIds \<Rightarrow>
          (case graphql adminClient calls (GetProductNodes productIds) of
             Inl e \<Rightarrow> (Inl e, calls @ [GetProductNodes productIds])
           | Inr response \<Rightarrow>
               (case json response of
                  Inl e \<Rightarrow> (Inl e, calls @ [GetProductNodes productIds])
                | Inr responseJson \<Rightarrow>
                    (node_products responseJson, calls @ [GetProductNodes productIds]))))"

text \<open>The \<open>try\<close> with its \<open>catch\<close>, which answers every exception.\<close>

definition supplementUpsellGroup ::
  "UpsellGroupFromDB \<Rightarrow> AdminApiContext \<Rightarrow> gql_request list
     \<Rightarrow> EnrichedUpsellGroup \<times> gql_request list" where
  "supplementUpsellGroup grp adminClient calls =
     (case supplement_try grp adminClient calls of
        (Inr products, calls') \<Rightarrow>
          (\<lparr>e_id = g_id grp, e_title = g_title grp, e_shop = g_shop grp,
            e_createdAt = g_createdAt grp, e_products = products\<rparr>, calls')
      | (Inl error, calls') \<Rightarrow>
          (\<lparr>e_id = g_id grp, e_title = g_title grp, e_shop = g_shop grp,
            e_createdAt = g_createdAt grp, e_products = []\<rparr>, calls'))"

definition getUpsellGroup ::
  "int \<Rightarrow> jstring \<Rightarrow> AdminApiContext \<Rightarrow> db_state \<Rightarrow> gql_request list
     \<Rightarrow> EnrichedUpsellGroup option \<times> gql_request list" where
  "getUpsellGroup i shop adminClient st calls =
     (case db_findFirst i shop st of
        None \<Rightarrow> (None, calls)
      | Some grp \<Rightarrow>
          (let (enriched, calls') = supplementUpsellGroup grp adminClient calls
           in (Some enriched, calls')))"

text \<open>
  \<open>Promise.all(groups.map(...))\<close>: the calls start in the order of the groups, and
  each sends its request before the next one starts; none of them rejects.
\<close>

fun supplement_all ::
  "UpsellGroupFromDB list \<Rightarrow> AdminApiContext \<Rightarrow> gql_request list
     \<Rightarrow> EnrichedUpsellGroup list \<times> gql_request list" where
  "supplement_all [] adminClient calls = ([], calls)"
| "supplement_all (grp # grps) adminClient calls =
     (let (enriched, calls') = supplementUpsellGroup grp adminClient calls;
          (rest, calls'') = supplement_all grps adminClient calls'
      in (enriched # rest, calls''))"

definition getUpsellGroups ::
  "jstring \<Rightarrow> AdminApiContext \<Rightarrow> db_state \<Rightarrow> gql_request list
     \<Rightarrow> EnrichedUpsellGroup list \<times> gql_request list" where
  "getUpsellGroups shop adminClient st calls =
     (let grps = db_findMany shop st
      in if length grps = 0 then ([], calls)
         else supplement_all grps adminClient calls)"

subsection \<open>Catalog search\<close>

text \<open>
  \<open>responseJson.data.products.nodes || []\<close>, each node formatted; no node is
  filtered out here.
\<close>

definition search_products_of :: "jsval \<Rightarrow> js_error + ProductData list" where
  "search_products_of responseJson =
     (case get_prop responseJson (js ''data'') of
        Inl e \<Rightarrow> Inl e
      | Inr d \<Rightarrow>
          (case get_prop d (js ''products'') of
             Inl e \<Rightarrow> Inl e
           | Inr ps \<Rightarrow>
               (case get_prop ps (js ''nodes'') of
                  Inl e \<Rightarrow> Inl e
                | Inr nodes \<Rightarrow>
                    (case array_of (or_empty nodes) of
                       Inl e \<Rightarrow> Inl e
                     | Inr productNodes \<Rightarrow> map_throw format_product productNodes))))"

definition searchProducts ::
  "jstring \<Rightarrow> jstring \<Rightarrow> AdminApiContext \<Rightarrow> gql_request list
     \<Rightarrow> (js_error + ProductData list) \<times> gql_request list" where
  "searchProducts shop query adminClient calls =
     (let request = SearchProducts 10 (js ''title:*'' @ query @ js ''*'')
      in case graphql adminClient calls request of
           Inl e \<Rightarrow> (Inl e, calls @ [request])
         | Inr response \<Rightarrow>
             (case json response of
                Inl e \<Rightarrow> (Inl e, calls @ [request])
              | Inr responseJson \<Rightarrow> (search_products_of responseJson, calls @ [request])))"

section \<open>The public endpoint \<open>app/routes/api/upsell.ts\<close>\<close>

text \<open>
  \<open>data(body, {status})\<close>; the status is 200 when none is given.
\<close>

record http_response =
  status :: nat
  body :: jsval

text \<open>
  What \<open>authenticate.public.checkout(request)\<close> resolves to, as far as the loader
  reads it (through \<open>any\<close>): the value of its property \<open>session\<close>, and its property
  \<open>cors\<close>, which is absent (\<open>undefined\<close> or \<open>null\<close>) or a value whose own property
  \<open>cors\<close> is a function on responses or is not one.
\<close>

datatype cors_prop = CorsAbsent | CorsHolder "(http_response \<Rightarrow> http_response) option"

record checkout_result =
  cr_session :: jsval
  cr_cors :: cors_prop

text \<open>Calling \<open>cors(...)\<close>: a \<open>TypeError\<close> when \<open>cors\<close> is not a function.\<close>

definition call_cors ::
  "(http_response \<Rightarrow> http_response) option \<Rightarrow> http_response \<Rightarrow> js_error + http_response" where
  "call_cors cors r = (case cors of None \<Rightarrow> Inl TypeError | Some f \<Rightarrow> Inr (f r))"

text \<open>
  The loader, given the outcome of the authentication and the outcome of
  \<open>db.product.findFirst\<close>.  Destructuring \<open>{session}\<close> and \<open>{cors}\<close> out of
  \<open>undefined\<close> or \<open>null\<close> throws a \<open>TypeError\<close>; nothing catches it, nor what the
  authentication throws.  An exception inside the \<open>try\<close> goes to its \<open>catch\<close>.
\<close>

definition loader ::
  "js_error + checkout_result \<Rightarrow> js_error + jsval \<Rightarrow> js_error + http_response" where
  "loader checkout findFirst =
     (case checkout of
        Inl e \<Rightarrow> Inl e
      | Inr checkoutResult \<Rightarrow>
          (case get_prop (cr_session checkoutResult) (js ''session'') of
             Inl e \<Rightarrow> Inl e
           | Inr session \<Rightarrow>
               (case cr_cors checkoutResult of
                  CorsAbsent \<Rightarrow> Inl TypeError
                | CorsHolder cors \<Rightarrow>
                    if \<not> truthy session then
                      call_cors cors \<lparr>status = 401, body = JObj [(js ''error'', JStr (js ''Unauthorized''))]\<rparr>
                    else
                      (case (case findFirst of
                               Inl e \<Rightarrow> Inl e
                             | Inr upsellProducts \<Rightarrow>
                                 call_cors cors \<lparr>status = 200, body = upsellProducts\<rparr>) of
                         Inr r \<Rightarrow> Inr r
                       | Inl error \<Rightarrow>
                           call_cors cors
                             \<lparr>status = 500,
                              body = JObj [(js ''error'', JStr (js ''Internal Server Error''))]\<rparr>))))"

section \<open>Sample inputs\<close>

text \<open>
  Concrete shops, stores, stored records and catalog clients on which the theorems
  below are instantiated.
\<close>

definition shopA :: jstring where
  "shopA = js ''a.myshopify.com''"

definition shopB :: jstring where
  "shopB = js ''b.myshopify.com''"

definition shopC :: jstring where
  "shopC = js ''c.myshopify.com''"

definition db0 :: db_state where
  "db0 = \<lparr>db_rows = [], db_seq = 0, db_clock = 0\<rparr>"

definition db2 :: db_state where
  "db2 = \<lparr>db_rows =
            [\<lparr>g_id = 1, g_title = js ''Summer'', g_shop = shopA,
              g_productIds = js ''[]'', g_createdAt = 5\<rparr>,
             \<lparr>g_id = 2, g_title = js ''Winter'', g_shop = shopB,
              g_productIds = js ''[]'', g_createdAt = 7\<rparr>],
          db_seq = 2, db_clock = 9\<rparr>"

definition db3 :: db_state where
  "db3 = \<lparr>db_rows =
            [\<lparr>g_id = 1, g_title = js ''Summer'', g_shop = shopA,
              g_productIds = js ''[]'', g_createdAt = 5\<rparr>,
             \<lparr>g_id = 2, g_title = js ''Winter'', g_shop = shopB,
              g_productIds = js ''[]'', g_createdAt = 7\<rparr>,
             \<lparr>g_id = 3, g_title = js ''Spring'', g_shop = shopA,
              g_productIds = js ''not json'', g_createdAt = 8\<rparr>],
          db_seq = 3, db_clock = 9\<rparr>"

definition clientDown :: AdminApiContext where
  "clientDown = \<lparr>graphql = (\<lambda>calls request. Inl (Thrown (js ''network error'')))\<rparr>"

definition clientBadBody :: AdminApiContext where
  "clientBadBody = \<lparr>graphql = (\<lambda>calls request. Inr \<lparr>json = Inl SyntaxError\<rparr>)\<rparr>"

definition client_of :: "jsval \<Rightarrow> AdminApiContext" where
  "client_of v = \<lparr>graphql = (\<lambda>calls request. Inr \<lparr>json = Inr v\<rparr>)\<rparr>"

definition product_node :: "jstring \<Rightarrow> jsval" where
  "product_node i =
     JObj [(js ''id'', JStr i), (js ''title'', JStr (js ''Shirt'')),
           (js ''handle'', JStr (js ''shirt'')), (js ''featuredImage'', JNull)]"

definition nodes_response :: "jsval list \<Rightarrow> jsval" where
  "nodes_response ns = JObj [(js ''data'', JObj [(js ''nodes'', JArr ns)])]"

definition group1 :: UpsellGroupFromDB where
  \<open>group1 = \<lparr>g_id = 1, g_title = js ''Summer'', g_shop = shopA,
               g_productIds = js ''["gid://shopify/Product/1"]'', g_createdAt = 5\<rparr>\<close>

definition group2 :: UpsellGroupFromDB where
  \<open>group2 = \<lparr>g_id = 2, g_title = js ''Summer'', g_shop = shopA,
               g_productIds = js ''["gid://shopify/Product/1","gid://shopify/Product/2"]'',
               g_createdAt = 5\<rparr>\<close>

definition groupBad :: UpsellGroupFromDB where
  "groupBad = \<lparr>g_id = 3, g_title = js ''Broken'', g_shop = shopA,
                g_productIds = js ''not json'', g_createdAt = 5\<rparr>"

definition row3 :: UpsellGroupFromDB where
  \<open>row3 = \<lparr>g_id = 3, g_title = js ''Summer'', g_shop = shopA,
             g_productIds = js ''["gid://shopify/Product/1","gid://shopify/Product/2"]'',
             g_createdAt = 9\<rparr>\<close>

text \<open>The tokens of an array of strings written without white space.\<close>

fun elem_tokens :: "jstring list \<Rightarrow> token list" where
  "elem_tokens [] = []"
| "elem_tokens [x] = [TStr x]"
| "elem_tokens (x # y # ys) = TStr x # TComma # elem_tokens (y # ys)"

lemma shops_differ: "shopA \<noteq> shopB"
  by (simp add: shopA_def shopB_def js_def)

section \<open>Validation and the assertions of the service\<close>

lemma truthy_string_iff: "truthy_string t = (t \<noteq> None \<and> t \<noteq> Some [])"
  by (cases t) (auto simp: truthy_string_def)

lemma nonempty_array_iff: "nonempty_array ps = (ps \<noteq> None \<and> ps \<noteq> Some [])"
  by (cases ps) (auto simp: nonempty_array_def)

lemma messages_differ: "js ''Title is required'' \<noteq> js ''Products are required''"
  by (simp add: js_def)

lemma createUpsellGroup_cases:
  "createUpsellGroup shop title productIds st =
     (if title = None \<or> title = Some [] then (Inl (InvariantFailed (js ''Title is required'')), st)
      else if productIds = None \<or> productIds = Some []
        then (Inl (InvariantFailed (js ''Products are required'')), st)
      else (Inr (fst (db_create shop (asserted title) (JSON_stringify (asserted productIds)) st)),
            snd (db_create shop (asserted title) (JSON_stringify (asserted productIds)) st)))"
  by (auto simp: createUpsellGroup_def invariant_def truthy_string_iff nonempty_array_iff
      split: prod.splits)

lemma updateUpsellGroup_cases:
  "updateUpsellGroup i shop data st =
     (if d_title data = None \<or> d_title data = Some []
        then (Inl (InvariantFailed (js ''Title is required'')), st)
      else if d_productIds data = None \<or> d_productIds data = Some []
        then (Inl (InvariantFailed (js ''Products are required'')), st)
      else (Inr (db_findFirst i shop
                   (db_updateMany i shop (asserted (d_title data))
                      (JSON_stringify (asserted (d_productIds data))) st)),
            db_updateMany i shop (asserted (d_title data))
              (JSON_stringify (asserted (d_productIds data))) st))"
  by (auto simp: updateUpsellGroup_def invariant_def truthy_string_iff nonempty_array_iff Let_def)

text \<open>
  Claim C2.  For every candidate \<open>{title, productIds}\<close>, \<open>validateUpsellGroup\<close> returns
  an error object with a \<open>title\<close> entry exactly when the title is empty or absent,
  with a \<open>products\<close> entry exactly when the identifier sequence is empty or absent,
  and returns no error object exactly when both are non-empty.  The function reads
  its argument only and yields its result only: it touches neither the store nor the
  catalog.
\<close>

theorem validateUpsellGroup_errors:
  "(\<exists>e. validateUpsellGroup d = Some e \<and> err_title e = Some (js ''Title is required''))
     = (d_title d = None \<or> d_title d = Some [])
   \<and> (\<exists>e m. validateUpsellGroup d = Some e \<and> err_title e = Some m)
     = (d_title d = None \<or> d_title d = Some [])
   \<and> (\<exists>e. validateUpsellGroup d = Some e
          \<and> err_products e = Some (js ''At least one product is required''))
     = (d_productIds d = None \<or> d_productIds d = Some [])
   \<and> (\<exists>e m. validateUpsellGroup d = Some e \<and> err_products e = Some m)
     = (d_productIds d = None \<or> d_productIds d = Some [])
   \<and> (validateUpsellGroup d = None)
     = (\<exists>t ps. d_title d = Some t \<and> t \<noteq> [] \<and> d_productIds d = Some ps \<and> ps \<noteq> [])"
  by (cases "d_title d"; cases "d_productIds d")
     (auto simp: validateUpsellGroup_def error_keys_def truthy_string_def nonempty_array_def
        Let_def)

text \<open>
  Claim C6.  When the title is empty or absent, or the identifier list is empty or
  absent, \<open>createUpsellGroup\<close> and \<open>updateUpsellGroup\<close> throw the error of the failed
  assertion and leave the store as it was; no field-error object is returned.  When
  both are non-empty, neither assertion fires and the call returns.
\<close>

theorem service_assertions_fatal:
  "(title = None \<or> title = Some [] \<or> productIds = None \<or> productIds = Some []
      \<longrightarrow> (\<exists>msg. createUpsellGroup shop title productIds st = (Inl (InvariantFailed msg), st))
        \<and> (\<exists>msg. updateUpsellGroup i shop \<lparr>d_title = title, d_productIds = productIds\<rparr> st
                   = (Inl (InvariantFailed msg), st)))
   \<and> (title = Some t \<and> t \<noteq> [] \<and> productIds = Some ps \<and> ps \<noteq> []
      \<longrightarrow> (\<exists>r st'. createUpsellGroup shop title productIds st = (Inr r, st'))
        \<and> (\<exists>u st'. updateUpsellGroup i shop \<lparr>d_title = title, d_productIds = productIds\<rparr> st
                   = (Inr u, st')))"
  by (auto simp: createUpsellGroup_cases updateUpsellGroup_cases)

theorem service_assertions_fatal_witness:
  "(\<exists>msg. createUpsellGroup (shopA) (Some []) (Some [js ''gid://shopify/Product/1'']) db0
            = (Inl (InvariantFailed msg), db0))
   \<and> (\<exists>msg. updateUpsellGroup 1 (shopA)
              \<lparr>d_title = Some [], d_productIds = Some [js ''gid://shopify/Product/1'']\<rparr> db0
            = (Inl (InvariantFailed msg), db0))
   \<and> (\<exists>r st'. createUpsellGroup (shopA) (Some (js ''Summer''))
                 (Some [js ''gid://shopify/Product/1'']) db0 = (Inr r, st'))
   \<and> (\<exists>u st'. updateUpsellGroup 1 (shopA)
                 \<lparr>d_title = Some (js ''Summer''), d_productIds = Some [js ''gid://shopify/Product/1'']\<rparr> db0
               = (Inr u, st'))"
proof -
  have bad: "Some [] = None \<or> Some ([]::jstring) = Some [] \<or> Some [js ''gid://shopify/Product/1''] = None
      \<or> Some [js ''gid://shopify/Product/1''] = Some []"
    by simp
  have good: "Some (js ''Summer'') = Some (js ''Summer'') \<and> js ''Summer'' \<noteq> []
      \<and> Some [js ''gid://shopify/Product/1''] = Some [js ''gid://shopify/Product/1'']
      \<and> [js ''gid://shopify/Product/1''] \<noteq> []"
    by (simp add: js_def)
  from bad good show ?thesis
    using service_assertions_fatal [of "Some []" "Some [js ''gid://shopify/Product/1'']"
            "shopA" db0 1 "[]" "[]"]
          service_assertions_fatal [of "Some (js ''Summer'')" "Some [js ''gid://shopify/Product/1'']"
            "shopA" db0 1 "js ''Summer''" "[js ''gid://shopify/Product/1'']"]
    by blast
qed

text \<open>
  Claim C10.  The title checks are tests of JavaScript falsiness: the title
  assertion of \<open>createUpsellGroup\<close> and of \<open>updateUpsellGroup\<close> fires, and
  \<open>validateUpsellGroup\<close> reports a title error, exactly when the title is absent or
  the empty string.  Any other string passes, also one of white space only.
\<close>

theorem title_assertion_is_falsiness:
  "(fst (createUpsellGroup shop title productIds st) = Inl (InvariantFailed (js ''Title is required'')))
     = (title = None \<or> title = Some [])
   \<and> (fst (updateUpsellGroup i shop \<lparr>d_title = title, d_productIds = productIds\<rparr> st)
        = Inl (InvariantFailed (js ''Title is required'')))
     = (title = None \<or> title = Some [])
   \<and> (\<exists>e m. validateUpsellGroup \<lparr>d_title = title, d_productIds = productIds\<rparr> = Some e
          \<and> err_title e = Some m)
     = (title = None \<or> title = Some [])
   \<and> (invariant (truthy_string title) (js ''Title is required'') = Inr ())
     = (\<exists>t. title = Some t \<and> t \<noteq> [])"
proof -
  have v: "(\<exists>e m. validateUpsellGroup \<lparr>d_title = title, d_productIds = productIds\<rparr> = Some e
          \<and> err_title e = Some m) = (title = None \<or> title = Some [])"
    by (cases title; cases productIds)
       (auto simp: validateUpsellGroup_def error_keys_def truthy_string_def nonempty_array_def
          Let_def)
  have i: "(invariant (truthy_string title) (js ''Title is required'') = Inr ())
     = (\<exists>t. title = Some t \<and> t \<noteq> [])"
    by (cases title) (auto simp: invariant_def truthy_string_def)
  show ?thesis
    unfolding v i using messages_differ
    by (auto simp: createUpsellGroup_cases updateUpsellGroup_cases)
qed

theorem title_assertion_is_falsiness_witness:
  "fst (createUpsellGroup (shopA) (Some (js '' '')) (Some [js ''p'']) db0)
     \<noteq> Inl (InvariantFailed (js ''Title is required''))
   \<and> fst (updateUpsellGroup 1 (shopA)
            \<lparr>d_title = Some (js '' ''), d_productIds = Some [js ''p'']\<rparr> db0)
     \<noteq> Inl (InvariantFailed (js ''Title is required''))
   \<and> \<not> (\<exists>e m. validateUpsellGroup \<lparr>d_title = Some (js '' ''), d_productIds = Some [js ''p'']\<rparr> = Some e
          \<and> err_title e = Some m)
   \<and> invariant (truthy_string (Some (js '' ''))) (js ''Title is required'') = Inr ()"
proof -
  have ws: "js '' '' \<noteq> []" by (simp add: js_def)
  then show ?thesis
    using title_assertion_is_falsiness [of "shopA" "Some (js '' '')"
            "Some [js ''p'']" db0 1]
    by simp
qed

section \<open>Writes are scoped by identifier and shop\<close>

lemma find_map_update:
  "find (matches i shop)
     (map (\<lambda>r. if matches i shop r then r\<lparr>g_title := t, g_productIds := p\<rparr> else r) rs)
   = map_option (\<lambda>r. r\<lparr>g_title := t, g_productIds := p\<rparr>) (find (matches i shop) rs)"
  by (induction rs) (auto simp: matches_def)

text \<open>
  Claim C7.  With valid data, \<open>updateUpsellGroup\<close> rewrites \<open>title\<close> and \<open>productIds\<close>
  in the rows that match both the identifier and the shop and leaves every other row,
  the identifier counter and the clock as they were.  When no row matches both, the
  store is unchanged, so a row with this identifier in another shop is never
  written.  The value returned is the record found after the update.
\<close>

theorem updateUpsellGroup_frame:
  assumes "d_title data = Some t" and "t \<noteq> []"
    and "d_productIds data = Some ps" and "ps \<noteq> []"
  shows "fst (updateUpsellGroup i shop data st)
           = Inr (db_findFirst i shop (snd (updateUpsellGroup i shop data st)))
    \<and> fst (updateUpsellGroup i shop data st)
           = Inr (map_option (\<lambda>r. r\<lparr>g_title := t, g_productIds := JSON_stringify ps\<rparr>)
                    (db_findFirst i shop st))
    \<and> db_rows (snd (updateUpsellGroup i shop data st))
           = map (\<lambda>r. if g_id r = i \<and> g_shop r = shop
                       then r\<lparr>g_title := t, g_productIds := JSON_stringify ps\<rparr> else r)
               (db_rows st)
    \<and> db_seq (snd (updateUpsellGroup i shop data st)) = db_seq st
    \<and> db_clock (snd (updateUpsellGroup i shop data st)) = db_clock st
    \<and> ((\<forall>r \<in> set (db_rows st). \<not> (g_id r = i \<and> g_shop r = shop))
         \<longrightarrow> updateUpsellGroup i shop data st = (Inr None, st))
    \<and> (\<forall>r \<in> set (db_rows st). g_shop r \<noteq> shop
         \<longrightarrow> r \<in> set (db_rows (snd (updateUpsellGroup i shop data st))))"
proof -
  let ?f = "\<lambda>r. if matches i shop r then r\<lparr>g_title := t, g_productIds := JSON_stringify ps\<rparr> else r"
  have u: "updateUpsellGroup i shop data st
        = (Inr (db_findFirst i shop (db_updateMany i shop t (JSON_stringify ps) st)),
           db_updateMany i shop t (JSON_stringify ps) st)"
    using assms by (simp add: updateUpsellGroup_cases asserted_def)
  have rows: "db_rows (db_updateMany i shop t (JSON_stringify ps) st) = map ?f (db_rows st)"
    by (simp add: db_updateMany_def)
  have nomatch: "db_updateMany i shop t (JSON_stringify ps) st = st"
    if "\<forall>r \<in> set (db_rows st). \<not> (g_id r = i \<and> g_shop r = shop)"
  proof -
    have "map ?f (db_rows st) = db_rows st"
      using that by (intro map_idI) (auto simp: matches_def)
    then show ?thesis by (simp add: db_updateMany_def)
  qed
  have none: "db_findFirst i shop st = None"
    if "\<forall>r \<in> set (db_rows st). \<not> (g_id r = i \<and> g_shop r = shop)"
    using that by (auto simp: db_findFirst_def find_None_iff matches_def)
  have other: "r \<in> set (map ?f (db_rows st))" if "r \<in> set (db_rows st)" "g_shop r \<noteq> shop" for r
  proof -
    have "?f r = r" using that by (simp add: matches_def)
    then have "r \<in> ?f ` set (db_rows st)" using that(1) by (intro image_eqI [of _ _ r]) simp_all
    then show ?thesis by simp
  qed
  have found: "db_findFirst i shop (db_updateMany i shop t (JSON_stringify ps) st)
      = map_option (\<lambda>r. r\<lparr>g_title := t, g_productIds := JSON_stringify ps\<rparr>)
          (db_findFirst i shop st)"
    by (simp add: db_findFirst_def rows find_map_update)
  have c1: "fst (updateUpsellGroup i shop data st)
           = Inr (db_findFirst i shop (snd (updateUpsellGroup i shop data st)))"
    by (simp add: u)
  have c2: "fst (updateUpsellGroup i shop data st)
           = Inr (map_option (\<lambda>r. r\<lparr>g_title := t, g_productIds := JSON_stringify ps\<rparr>)
                    (db_findFirst i shop st))"
    by (simp add: u found)
  have c3: "db_rows (snd (updateUpsellGroup i shop data st))
           = map (\<lambda>r. if g_id r = i \<and> g_shop r = shop
                       then r\<lparr>g_title := t, g_productIds := JSON_stringify ps\<rparr> else r)
               (db_rows st)"
    by (simp add: u rows matches_def)
  have c4: "db_seq (snd (updateUpsellGroup i shop data st)) = db_seq st"
    and c5: "db_clock (snd (updateUpsellGroup i shop data st)) = db_clock st"
    by (simp_all add: u db_updateMany_def)
  have c6: "(\<forall>r \<in> set (db_rows st). \<not> (g_id r = i \<and> g_shop r = shop))
         \<longrightarrow> updateUpsellGroup i shop data st = (Inr None, st)"
    using nomatch none by (simp add: u)
  have c7: "\<forall>r \<in> set (db_rows st). g_shop r \<noteq> shop
         \<longrightarrow> r \<in> set (db_rows (snd (updateUpsellGroup i shop data st)))"
    using other by (simp only: u snd_conv rows) blast
  show ?thesis by (intro conjI c1 c2 c3 c4 c5 c6 c7)
qed

theorem updateUpsellGroup_frame_witness:
  "updateUpsellGroup 1 shopB \<lparr>d_title = Some (js ''X''), d_productIds = Some [js ''p'']\<rparr> db2
     = (Inr None, db2)
   \<and> db_rows (snd (updateUpsellGroup 2 shopB
        \<lparr>d_title = Some (js ''X''), d_productIds = Some [js ''p'']\<rparr> db2))
     = [db_rows db2 ! 0, (db_rows db2 ! 1)\<lparr>g_title := js ''X'', g_productIds := JSON_stringify [js ''p'']\<rparr>]
   \<and> fst (updateUpsellGroup 2 shopB
        \<lparr>d_title = Some (js ''X''), d_productIds = Some [js ''p'']\<rparr> db2)
     = Inr (Some ((db_rows db2 ! 1)\<lparr>g_title := js ''X'', g_productIds := JSON_stringify [js ''p'']\<rparr>))"
proof -
  let ?d = "\<lparr>d_title = Some (js ''X''), d_productIds = Some [js ''p'']\<rparr>"
  have h: "d_title ?d = Some (js ''X'')" "js ''X'' \<noteq> []" "d_productIds ?d = Some [js ''p'']"
    "[js ''p''] \<noteq> []"
    by (simp_all add: js_def)
  have nm: "\<forall>r \<in> set (db_rows db2). \<not> (g_id r = 1 \<and> g_shop r = shopB)"
    using shops_differ by (simp add: db2_def)
  have w1: "updateUpsellGroup 1 shopB ?d db2 = (Inr None, db2)"
    using updateUpsellGroup_frame [OF h, of 1 shopB db2] nm by (elim conjE impE) assumption
  note f = updateUpsellGroup_frame [OF h, of 2 shopB db2]
  have w2: "db_rows (snd (updateUpsellGroup 2 shopB ?d db2))
     = [db_rows db2 ! 0, (db_rows db2 ! 1)\<lparr>g_title := js ''X'', g_productIds := JSON_stringify [js ''p'']\<rparr>]"
    unfolding f [THEN conjunct2, THEN conjunct2, THEN conjunct1]
    using shops_differ by (simp add: db2_def)
  have w3: "fst (updateUpsellGroup 2 shopB ?d db2)
     = Inr (Some ((db_rows db2 ! 1)\<lparr>g_title := js ''X'', g_productIds := JSON_stringify [js ''p'']\<rparr>))"
    unfolding f [THEN conjunct2, THEN conjunct1]
    using shops_differ by (simp add: db2_def db_findFirst_def matches_def)
  show ?thesis by (intro conjI w1 w2 w3)
qed

text \<open>
  Claim C8.  \<open>deleteUpsellGroup\<close> removes the rows that match both the identifier and
  the shop, keeps every other row, and acknowledges success whether or not a row
  matched.  A second call with the same arguments acknowledges success again and
  leaves the store as the first call left it.
\<close>

theorem deleteUpsellGroup_idempotent:
  "fst (deleteUpsellGroup i shop st) = \<lparr>success = True\<rparr>
   \<and> db_rows (snd (deleteUpsellGroup i shop st))
       = filter (\<lambda>r. \<not> (g_id r = i \<and> g_shop r = shop)) (db_rows st)
   \<and> db_seq (snd (deleteUpsellGroup i shop st)) = db_seq st
   \<and> db_clock (snd (deleteUpsellGroup i shop st)) = db_clock st
   \<and> deleteUpsellGroup i shop (snd (deleteUpsellGroup i shop st))
       = (\<lparr>success = True\<rparr>, snd (deleteUpsellGroup i shop st))"
  by (simp add: deleteUpsellGroup_def db_deleteMany_def matches_def)

theorem deleteUpsellGroup_idempotent_witness:
  "fst (deleteUpsellGroup 1 shopA db2) = \<lparr>success = True\<rparr>
   \<and> db_rows (snd (deleteUpsellGroup 1 shopA db2)) = [db_rows db2 ! 1]
   \<and> db_rows (snd (deleteUpsellGroup 1 shopB db2)) = db_rows db2
   \<and> deleteUpsellGroup 1 shopA (snd (deleteUpsellGroup 1 shopA db2))
       = (\<lparr>success = True\<rparr>, snd (deleteUpsellGroup 1 shopA db2))"
  using deleteUpsellGroup_idempotent [of 1 shopA db2]
        deleteUpsellGroup_idempotent [of 1 shopB db2] shops_differ
  by (simp add: db2_def)

section \<open>Decoding what was encoded\<close>

lemma unat_small: "m < 65536 \<Longrightarrow> unat (of_nat m :: 16 word) = m"
  by (simp add: unat_of_nat)

lemma hex_val_hex_digit: "n < 16 \<Longrightarrow> hex_val (hex_digit n) = Some n"
proof -
  assume n: "n < 16"
  define w :: "16 word" where "w = hex_digit n"
  have u: "unat w = (if n < 10 then 48 + n else 87 + n)"
    using n unat_small [of "48 + n"] unat_small [of "87 + n"]
    unfolding w_def hex_digit_def by (simp del: of_nat_add)
  have "hex_val w = Some n"
    using n by (simp add: hex_val_def word_le_nat_alt u)
  then show ?thesis by (simp add: w_def)
qed

lemma nibbles:
  "((n div 4096 * 16 + n div 256 mod 16) * 16 + n div 16 mod 16) * 16 + n mod 16 = (n::nat)"
proof -
  have a: "n div 4096 = n div 256 div 16" and b: "n div 256 = n div 16 div 16"
    by (simp_all add: div_mult2_eq [symmetric])
  have "n div 4096 * 16 + n div 256 mod 16 = n div 256" unfolding a by simp
  moreover have "n div 256 * 16 + n div 16 mod 16 = n div 16" unfolding b by simp
  ultimately show ?thesis by simp
qed

lemma hex4_unicode_escape:
  "hex4 (hex_digit (unat c div 4096)) (hex_digit (unat c div 256 mod 16))
        (hex_digit (unat c div 16 mod 16)) (hex_digit (unat c mod 16)) = Some c"
proof -
  have "unat c < 65536" using unsigned_less [of c] by simp
  then have h1: "hex_val (hex_digit (unat c div 4096)) = Some (unat c div 4096)"
    by (intro hex_val_hex_digit) simp
  have h2: "hex_val (hex_digit (unat c div 256 mod 16)) = Some (unat c div 256 mod 16)"
    and h3: "hex_val (hex_digit (unat c div 16 mod 16)) = Some (unat c div 16 mod 16)"
    and h4: "hex_val (hex_digit (unat c mod 16)) = Some (unat c mod 16)"
    by (simp_all add: hex_val_hex_digit)
  have e: "(of_nat (((unat c div 4096 * 16 + unat c div 256 mod 16) * 16
              + unat c div 16 mod 16) * 16 + unat c mod 16) :: 16 word) = c"
    by (subst nibbles) simp
  show ?thesis
    by (simp only: hex4_def h1 h2 h3 h4 prod.case option.case e)
qed

lemma string_body_unicode_escape:
  "string_body (unicode_escape c @ xs) = consS c (string_body xs)"
  by (simp add: unicode_escape_def hex4_unicode_escape)

lemma surrogate_raw:
  "is_lead c \<or> is_trail c \<Longrightarrow> c \<noteq> 0x22 \<and> c \<noteq> 0x5C \<and> \<not> c < 0x20"
  by (auto simp: is_lead_def is_trail_def word_le_nat_alt word_less_nat_alt)

lemma string_body_quote_unit:
  "string_body (quote_unit c @ xs) = consS c (string_body xs)"
  by (simp add: quote_unit_def string_body_unicode_escape unescape_def)

lemma string_body_quote_body:
  "string_body (quote_body s @ 0x22 # rest) = Some (s, rest)"
proof (induction s rule: quote_body.induct)
  case 1
  show ?case by simp
next
  case (2 c)
  show ?case using string_body_quote_unit [of c "0x22 # rest"] by (simp add: consS_def)
next
  case (3 c d cs)
  show ?case
  proof (cases "is_lead c \<and> is_trail d")
    case True
    then have "c \<noteq> 0x22" "c \<noteq> 0x5C" "\<not> c < 0x20" "d \<noteq> 0x22" "d \<noteq> 0x5C" "\<not> d < 0x20"
      using surrogate_raw [of c] surrogate_raw [of d] by blast+
    with True 3 show ?thesis
      by (simp add: consS_def)
  next
    case False
    have q: "quote_body (c # d # cs) = quote_unit c @ quote_body (d # cs)"
      using False by auto
    have ih: "string_body (quote_body (d # cs) @ 0x22 # rest) = Some (d # cs, rest)"
      using "3.IH" False by simp
    show ?thesis
      unfolding q append_assoc string_body_quote_unit ih by (simp add: consS_def)
  qed
qed

lemma lex_QuoteJSONString:
  "lex (QuoteJSONString s @ rest) = consT (TStr s) (lex rest)"
  by (simp add: QuoteJSONString_def is_ws_def string_body_quote_body)
lemma lex_join_comma:
  "lex (join_comma (map QuoteJSONString xs) @ [0x5D]) = Some (elem_tokens xs @ [TRBrack])"
proof (induction xs rule: elem_tokens.induct)
  case 1
  show ?case by (simp add: is_ws_def consT_def)
next
  case (2 x)
  show ?case by (simp add: lex_QuoteJSONString is_ws_def consT_def)
next
  case (3 x y ys)
  have "lex (join_comma (map QuoteJSONString (x # y # ys)) @ [0x5D])
      = consT (TStr x) (lex (0x2C # join_comma (map QuoteJSONString (y # ys)) @ [0x5D]))"
    by (simp add: lex_QuoteJSONString)
  also have "\<dots> = consT (TStr x) (consT TComma (Some (elem_tokens (y # ys) @ [TRBrack])))"
    using 3 by (simp add: is_ws_def)
  finally show ?case by (simp add: consT_def)
qed

lemma lex_JSON_stringify:
  "lex (JSON_stringify xs) = Some (TLBrack # elem_tokens xs @ [TRBrack])"
  by (simp add: JSON_stringify_def is_ws_def lex_join_comma consT_def)

lemma parse_more_elements:
  "parse_tokens PAfter [FArr es] (concat (map (\<lambda>x. [TComma, TStr x]) xs) @ [TRBrack])
     = Some (JArr (rev es @ map JStr xs))"
  by (induction xs arbitrary: es) simp_all

lemma elem_tokens_Cons:
  "elem_tokens (x # xs) = TStr x # concat (map (\<lambda>y. [TComma, TStr y]) xs)"
  by (induction xs arbitrary: x) simp_all

lemma parse_string_array:
  "parse_tokens PValue [] (TLBrack # elem_tokens xs @ [TRBrack]) = Some (JArr (map JStr xs))"
proof (cases xs)
  case Nil
  then show ?thesis by simp
next
  case (Cons x ys)
  then show ?thesis
    using parse_more_elements [of "[JStr x]" ys] by (simp add: elem_tokens_Cons)
qed

lemma JSON_parse_stringify:
  "JSON_parse (JSON_stringify xs) = Inr (JArr (map JStr xs))"
  by (simp only: JSON_parse_def lex_JSON_stringify parse_string_array option.case)

text \<open>Both functions on concrete texts.\<close>

lemma JSON_stringify_example:
  \<open>JSON_stringify [js ''gid://shopify/Product/1'', js ''gid://shopify/Product/2'']
     = js ''["gid://shopify/Product/1","gid://shopify/Product/2"]''\<close>
  by code_simp

lemma JSON_stringify_escapes:
  \<open>JSON_stringify [[0x61, 0x22, 0x5C, 0x0A, 0x1F, 0xD83D, 0xDE00, 0xDE00]]
     = js ''["a'' @ [0x5C, 0x22, 0x5C, 0x5C, 0x5C, 0x6E] @ [0x5C] @ js ''u001f''
       @ [0xD83D, 0xDE00] @ [0x5C] @ js ''ude00"]''\<close>
  by (simp add: JSON_stringify_def QuoteJSONString_def quote_unit_def unicode_escape_def
      hex_digit_def is_lead_def is_trail_def js_def)

lemma JSON_parse_examples:
  \<open>JSON_parse (js '' [ "a" , "'' @ [0x5C] @ js ''u0041'' @ [0x5C] @ js ''n" ] '')
     = Inr (JArr [JStr (js ''a''), JStr [0x41, 0x0A]])\<close>
  \<open>JSON_parse (js ''["a",]'') = Inl SyntaxError\<close>
  \<open>JSON_parse (js ''01'') = Inl SyntaxError\<close>
  \<open>JSON_parse (js ''not json'') = Inl SyntaxError\<close>
  \<open>JSON_parse [] = Inl SyntaxError\<close>
  by code_simp+

lemma JSON_parse_nested:
  \<open>JSON_parse (js ''{"k": [1.5e1, true, null, {}], "k": -0.25}'')
     = Inr (JObj [(js ''k'', JArr [JNum 15, JBool True, JNull, JObj []]),
                  (js ''k'', JNum (- 1 / 4))])\<close>
  by code_simp

section \<open>Create, then read\<close>

lemma supplementUpsellGroup_fields:
  "e_id (fst (supplementUpsellGroup g c calls)) = g_id g
   \<and> e_title (fst (supplementUpsellGroup g c calls)) = g_title g
   \<and> e_shop (fst (supplementUpsellGroup g c calls)) = g_shop g
   \<and> e_createdAt (fst (supplementUpsellGroup g c calls)) = g_createdAt g"
  by (simp add: supplementUpsellGroup_def split: prod.splits sum.splits)

lemma fold_max_ge: "(a::int) \<le> fold max xs a"
proof (induction xs arbitrary: a)
  case Nil
  show ?case by simp
next
  case (Cons x xs)
  have "a \<le> max x a" by simp
  also have "\<dots> \<le> fold max xs (max x a)" by (rule Cons.IH)
  finally show ?case by simp
qed

lemma fold_max_mem: "x \<in> set xs \<Longrightarrow> (x::int) \<le> fold max xs a"
proof (induction xs arbitrary: a)
  case Nil
  then show ?case by simp
next
  case (Cons y ys)
  show ?case
  proof (cases "x = y")
    case True
    have "x \<le> max y a" using True by simp
    also have "\<dots> \<le> fold max ys (max y a)" by (rule fold_max_ge)
    finally show ?thesis by simp
  next
    case False
    then have "x \<in> set ys" using Cons.prems by simp
    then show ?thesis using Cons.IH by simp
  qed
qed

lemma ids_le_last_id: "r \<in> set (db_rows st) \<Longrightarrow> g_id r \<le> last_id st"
  unfolding last_id_def by (rule fold_max_mem) simp

lemma find_fresh_last:
  "\<forall>x \<in> set xs. \<not> P x \<Longrightarrow> P r \<Longrightarrow> find P (xs @ [r]) = Some r"
  by (induction xs) simp_all

lemma findFirst_after_create:
  "db_findFirst (g_id (fst (db_create shop t p st))) shop (snd (db_create shop t p st))
     = Some (fst (db_create shop t p st))"
proof -
  let ?r = "\<lparr>g_id = last_id st + 1, g_title = t, g_shop = shop, g_productIds = p,
             g_createdAt = db_clock st\<rparr>"
  have "\<forall>x \<in> set (db_rows st). \<not> matches (last_id st + 1) shop x"
    using ids_le_last_id [of _ st] by (fastforce simp: matches_def)
  moreover have "matches (last_id st + 1) shop ?r" by (simp add: matches_def)
  ultimately have "find (matches (last_id st + 1) shop) (db_rows st @ [?r]) = Some ?r"
    by (rule find_fresh_last)
  then show ?thesis by (simp add: db_create_def db_findFirst_def Let_def)
qed

lemma supplement_calls:
  "JSON_parse (g_productIds g) = Inr ids
     \<Longrightarrow> snd (supplementUpsellGroup g c calls) = calls @ [GetProductNodes ids]"
  by (simp add: supplementUpsellGroup_def supplement_try_def split: sum.splits prod.splits)

text \<open>
  Claim C3.  For every shop, store, non-empty title and non-empty list of product
  identifiers, \<open>createUpsellGroup\<close> returns a record; \<open>getUpsellGroup\<close> with its
  identifier and the same shop then finds that record, whose title is the submitted
  one and whose \<open>productIds\<close> text decodes to the submitted list, and returns the
  enriched record with that title.  The enriched record has no \<open>productIds\<close> field:
  the decoded list is what the call sends to the catalog.
\<close>

theorem create_then_get_roundtrip:
  assumes "title \<noteq> []" and "productIds \<noteq> []"
  shows "\<exists>r st' g.
           createUpsellGroup shop (Some title) (Some productIds) st = (Inr r, st')
         \<and> db_findFirst (g_id r) shop st' = Some r
         \<and> g_title r = title
         \<and> g_shop r = shop
         \<and> JSON_parse (g_productIds r) = Inr (JArr (map JStr productIds))
         \<and> getUpsellGroup (g_id r) shop adminClient st' calls
             = (Some g, calls @ [GetProductNodes (JArr (map JStr productIds))])
         \<and> e_id g = g_id r \<and> e_title g = title \<and> e_shop g = shop"
proof -
  let ?c = "db_create shop title (JSON_stringify productIds) st"
  let ?r = "fst ?c" and ?st' = "snd ?c"
  let ?s = "supplementUpsellGroup ?r adminClient calls"
  have cr: "createUpsellGroup shop (Some title) (Some productIds) st = (Inr ?r, ?st')"
    using assms by (simp add: createUpsellGroup_cases asserted_def)
  have ff: "db_findFirst (g_id ?r) shop ?st' = Some ?r"
    by (rule findFirst_after_create)
  have fields: "g_title ?r = title" "g_shop ?r = shop"
    "g_productIds ?r = JSON_stringify productIds"
    by (simp_all add: db_create_def Let_def)
  have dec: "JSON_parse (g_productIds ?r) = Inr (JArr (map JStr productIds))"
    by (simp only: fields JSON_parse_stringify)
  have get: "getUpsellGroup (g_id ?r) shop adminClient ?st' calls
      = (Some (fst ?s), calls @ [GetProductNodes (JArr (map JStr productIds))])"
    using supplement_calls [OF dec, of adminClient calls]
    by (auto simp: getUpsellGroup_def ff split: prod.splits)
  have ef: "e_id (fst ?s) = g_id ?r" "e_title (fst ?s) = title" "e_shop (fst ?s) = shop"
    using supplementUpsellGroup_fields [of ?r adminClient calls] fields by simp_all
  show ?thesis
    using cr ff fields(1,2) dec get ef by blast
qed

theorem create_then_get_roundtrip_witness:
  "js ''Summer'' \<noteq> []
   \<and> [js ''gid://shopify/Product/1'', js ''gid://shopify/Product/2''] \<noteq> []
   \<and> createUpsellGroup shopA (Some (js ''Summer''))
         (Some [js ''gid://shopify/Product/1'', js ''gid://shopify/Product/2'']) db2
       = (Inr row3, db2\<lparr>db_rows := db_rows db2 @ [row3], db_seq := 3\<rparr>)
   \<and> db_findFirst 3 shopA (db2\<lparr>db_rows := db_rows db2 @ [row3], db_seq := 3\<rparr>) = Some row3
   \<and> JSON_parse (g_productIds row3)
       = Inr (JArr [JStr (js ''gid://shopify/Product/1''), JStr (js ''gid://shopify/Product/2'')])
   \<and> (\<exists>g. getUpsellGroup 3 shopA clientDown (db2\<lparr>db_rows := db_rows db2 @ [row3], db_seq := 3\<rparr>) []
             = (Some g, [GetProductNodes
                 (JArr [JStr (js ''gid://shopify/Product/1''), JStr (js ''gid://shopify/Product/2'')])])
          \<and> e_id g = 3 \<and> e_title g = js ''Summer'' \<and> e_shop g = shopA)"
proof -
  let ?ids = "[js ''gid://shopify/Product/1'', js ''gid://shopify/Product/2'']"
  let ?st = "db2\<lparr>db_rows := db_rows db2 @ [row3], db_seq := 3\<rparr>"
  have h1: "js ''Summer'' \<noteq> []" by (simp add: js_def)
  have h2: "?ids \<noteq> []" by simp
  have ev: "createUpsellGroup shopA (Some (js ''Summer'')) (Some ?ids) db2 = (Inr row3, ?st)"
    by code_simp
  obtain r st' g where
    c: "createUpsellGroup shopA (Some (js ''Summer'')) (Some ?ids) db2 = (Inr r, st')"
    and f: "db_findFirst (g_id r) shopA st' = Some r"
    and p: "JSON_parse (g_productIds r) = Inr (JArr (map JStr ?ids))"
    and g: "getUpsellGroup (g_id r) shopA clientDown st' []
             = (Some g, [] @ [GetProductNodes (JArr (map JStr ?ids))])"
    and e: "e_id g = g_id r" "e_title g = js ''Summer''" "e_shop g = shopA"
    using create_then_get_roundtrip [OF h1 h2, of shopA db2 clientDown "[]"] by blast
  have r: "r = row3" and st: "st' = ?st" using c ev by simp_all
  have i: "g_id row3 = 3" by (simp add: row3_def)
  have w4: "db_findFirst 3 shopA ?st = Some row3"
    using f unfolding r st i .
  have w5: "JSON_parse (g_productIds row3)
       = Inr (JArr [JStr (js ''gid://shopify/Product/1''), JStr (js ''gid://shopify/Product/2'')])"
    using p unfolding r by simp
  have w6: "\<exists>g. getUpsellGroup 3 shopA clientDown ?st []
             = (Some g, [GetProductNodes
                 (JArr [JStr (js ''gid://shopify/Product/1''), JStr (js ''gid://shopify/Product/2'')])])
          \<and> e_id g = 3 \<and> e_title g = js ''Summer'' \<and> e_shop g = shopA"
    using g e unfolding r st i by (intro exI [of _ g]) simp
  show ?thesis by (intro conjI h1 h2 ev w4 w5 w6)
qed

section \<open>Enrichment\<close>

lemma map_throw_each:
  "map_throw f xs = Inr ys \<Longrightarrow> list_all2 (\<lambda>y x. f x = Inr y) ys xs"
  by (induction xs arbitrary: ys) (auto split: sum.splits)

lemma map_throw_total:
  "\<forall>x \<in> set xs. \<exists>y. f x = Inr y \<Longrightarrow> \<exists>ys. map_throw f xs = Inr ys"
  by (induction xs) (auto split: sum.splits)

lemma get_prop_total:
  "v \<noteq> JUndefined \<Longrightarrow> v \<noteq> JNull \<Longrightarrow> \<exists>w. get_prop v k = Inr w"
  by (cases v) simp_all

lemma format_product_total:
  assumes "node \<noteq> JUndefined" and "node \<noteq> JNull"
  shows "\<exists>p. format_product node = Inr p"
proof -
  obtain i t h fi where g: "get_prop node (js ''id'') = Inr i"
    "get_prop node (js ''title'') = Inr t" "get_prop node (js ''handle'') = Inr h"
    "get_prop node (js ''featuredImage'') = Inr fi"
    using get_prop_total [OF assms] by metis
  show ?thesis
  proof (cases "fi = JUndefined \<or> fi = JNull")
    case True
    then show ?thesis unfolding format_product_def g by auto
  next
    case False
    then obtain u where "get_prop fi (js ''url'') = Inr u"
      using get_prop_total [of fi] by blast
    with False show ?thesis unfolding format_product_def g by simp
  qed
qed

lemma supplement_products:
  "e_products (fst (supplementUpsellGroup g c calls))
     = (case fst (supplement_try g c calls) of Inl e \<Rightarrow> [] | Inr ps \<Rightarrow> ps)"
  by (simp add: supplementUpsellGroup_def split: prod.splits sum.splits)

lemma supplement_try_ok:
  "JSON_parse (g_productIds g) = Inr ids \<Longrightarrow> graphql c calls (GetProductNodes ids) = Inr resp
     \<Longrightarrow> json resp = Inr rj \<Longrightarrow> fst (supplement_try g c calls) = node_products rj"
  by (simp add: supplement_try_def)

lemma node_products_ok:
  "get_prop rj (js ''data'') = Inr d \<Longrightarrow> get_prop d (js ''nodes'') = Inr nodes
     \<Longrightarrow> array_of (or_empty nodes) = Inr arr
     \<Longrightarrow> node_products rj = map_throw format_product (filter (\<lambda>node. node \<noteq> JNull) arr)"
  by (simp add: node_products_def)

text \<open>
  Claim C1, as amended.  \<open>supplementUpsellGroup\<close> always returns an enriched record
  whose \<open>id\<close>, \<open>title\<close>, \<open>shop\<close> and \<open>createdAt\<close> are those of the stored record.
  Its products are empty when decoding \<open>productIds\<close> throws, when the catalog call
  throws, when \<open>json()\<close> throws and when reading the response throws.  When the
  response is read, the products are the nodes other than \<open>null\<close>, in order, each
  formatted, so they are at most as many as the response has nodes; they are at most
  as many as the requested identifiers whenever the response has at most one node
  for each of them.
\<close>

theorem supplementUpsellGroup_degrades:
  fixes g c calls
  defines "e \<equiv> fst (supplementUpsellGroup g c calls)"
  shows
   "e_id e = g_id g \<and> e_title e = g_title g \<and> e_shop e = g_shop g
    \<and> e_createdAt e = g_createdAt g
    \<and> (JSON_parse (g_productIds g) = Inl err \<longrightarrow> e_products e = [])
    \<and> (JSON_parse (g_productIds g) = Inr ids
         \<and> graphql c calls (GetProductNodes ids) = Inl err \<longrightarrow> e_products e = [])
    \<and> (JSON_parse (g_productIds g) = Inr ids
         \<and> graphql c calls (GetProductNodes ids) = Inr resp
         \<and> json resp = Inl err \<longrightarrow> e_products e = [])
    \<and> (JSON_parse (g_productIds g) = Inr ids
         \<and> graphql c calls (GetProductNodes ids) = Inr resp
         \<and> json resp = Inr rj \<and> node_products rj = Inl err \<longrightarrow> e_products e = [])
    \<and> (JSON_parse (g_productIds g) = Inr ids
         \<and> graphql c calls (GetProductNodes ids) = Inr resp
         \<and> json resp = Inr rj
         \<and> get_prop rj (js ''data'') = Inr d \<and> get_prop d (js ''nodes'') = Inr nodes
         \<and> array_of (or_empty nodes) = Inr arr
         \<longrightarrow> (JUndefined \<notin> set arr
                \<longrightarrow> list_all2 (\<lambda>p node. format_product node = Inr p) (e_products e)
                      (filter (\<lambda>node. node \<noteq> JNull) arr))
            \<and> length (e_products e) \<le> length (filter (\<lambda>node. node \<noteq> JNull) arr)
            \<and> length (e_products e) \<le> length arr
            \<and> (ids = JArr xs \<and> length arr \<le> length xs
                \<longrightarrow> length (e_products e) \<le> length xs))"
proof -
  have f: "e_id e = g_id g" "e_title e = g_title g" "e_shop e = g_shop g"
    "e_createdAt e = g_createdAt g"
    using supplementUpsellGroup_fields [of g c calls] by (simp_all add: e_def)
  have p: "e_products e = (case fst (supplement_try g c calls) of Inl e \<Rightarrow> [] | Inr ps \<Rightarrow> ps)"
    by (simp add: e_def supplement_products)
  have t1: "JSON_parse (g_productIds g) = Inl err \<longrightarrow> e_products e = []"
    by (simp add: p supplement_try_def)
  have t2: "JSON_parse (g_productIds g) = Inr ids
         \<and> graphql c calls (GetProductNodes ids) = Inl err \<longrightarrow> e_products e = []"
    by (simp add: p supplement_try_def)
  have t3: "JSON_parse (g_productIds g) = Inr ids
         \<and> graphql c calls (GetProductNodes ids) = Inr resp
         \<and> json resp = Inl err \<longrightarrow> e_products e = []"
    by (simp add: p supplement_try_def)
  have t4: "JSON_parse (g_productIds g) = Inr ids
         \<and> graphql c calls (GetProductNodes ids) = Inr resp
         \<and> json resp = Inr rj \<and> node_products rj = Inl err \<longrightarrow> e_products e = []"
    by (simp add: p supplement_try_def)
  have t5: "(JUndefined \<notin> set arr
                \<longrightarrow> list_all2 (\<lambda>p node. format_product node = Inr p) (e_products e)
                      (filter (\<lambda>node. node \<noteq> JNull) arr))
            \<and> length (e_products e) \<le> length (filter (\<lambda>node. node \<noteq> JNull) arr)
            \<and> length (e_products e) \<le> length arr
            \<and> (ids = JArr xs \<and> length arr \<le> length xs
                \<longrightarrow> length (e_products e) \<le> length xs)"
    if h: "JSON_parse (g_productIds g) = Inr ids"
      "graphql c calls (GetProductNodes ids) = Inr resp" "json resp = Inr rj"
      "get_prop rj (js ''data'') = Inr d" "get_prop d (js ''nodes'') = Inr nodes"
      "array_of (or_empty nodes) = Inr arr"
  proof -
    let ?live = "filter (\<lambda>node. node \<noteq> JNull) arr"
    have q: "e_products e = (case map_throw format_product ?live of Inl e \<Rightarrow> [] | Inr ps \<Rightarrow> ps)"
      unfolding p supplement_try_ok [OF h(1,2,3)] node_products_ok [OF h(4,5,6)] ..
    have a: "list_all2 (\<lambda>p node. format_product node = Inr p) (e_products e) ?live"
      if "JUndefined \<notin> set arr"
    proof -
      have "\<exists>y. format_product x = Inr y" if "x \<in> set ?live" for x
      proof -
        have "x \<noteq> JNull" and "x \<in> set arr" using that by simp_all
        then have "x \<noteq> JUndefined" using \<open>JUndefined \<notin> set arr\<close> by blast
        then show ?thesis using \<open>x \<noteq> JNull\<close> by (rule format_product_total)
      qed
      then have "\<forall>x \<in> set ?live. \<exists>y. format_product x = Inr y" by blast
      then obtain ps where ps: "map_throw format_product ?live = Inr ps"
        using map_throw_total by blast
      then show ?thesis using map_throw_each [OF ps] by (simp add: q)
    qed
    have b: "length (e_products e) \<le> length ?live"
    proof (cases "map_throw format_product ?live")
      case (Inl x)
      then show ?thesis by (simp add: q)
    next
      case (Inr ps)
      then show ?thesis using map_throw_each [OF Inr] by (simp add: q list_all2_lengthD)
    qed
    have c: "length (e_products e) \<le> length arr"
      using b by (rule order_trans) simp
    have d: "ids = JArr xs \<and> length arr \<le> length xs \<longrightarrow> length (e_products e) \<le> length xs"
      using c by simp
    from a have a': "JUndefined \<notin> set arr
        \<longrightarrow> list_all2 (\<lambda>p node. format_product node = Inr p) (e_products e) ?live"
      by blast
    show ?thesis by (intro conjI a' b c d)
  qed
  show ?thesis
    using f t1 t2 t3 t4 t5 by blast
qed

theorem supplementUpsellGroup_degrades_witness:
  \<open>e_products (fst (supplementUpsellGroup groupBad clientDown [])) = []
   \<and> e_title (fst (supplementUpsellGroup groupBad clientDown [])) = g_title groupBad
   \<and> e_products (fst (supplementUpsellGroup group2 clientDown [])) = []
   \<and> e_products (fst (supplementUpsellGroup group2 clientBadBody [])) = []
   \<and> e_products (fst (supplementUpsellGroup group2 (client_of JNull) [])) = []
   \<and> length (e_products (fst (supplementUpsellGroup group2
        (client_of (nodes_response [product_node (js ''gid://shopify/Product/1''), JNull])) [])))
      \<le> length [js ''gid://shopify/Product/1'', js ''gid://shopify/Product/2'']
   \<and> list_all2 (\<lambda>p node. format_product node = Inr p)
        (e_products (fst (supplementUpsellGroup group2
          (client_of (nodes_response [product_node (js ''gid://shopify/Product/1''), JNull])) [])))
        [product_node (js ''gid://shopify/Product/1'')]\<close>
proof -
  let ?ids = "JArr [JStr (js ''gid://shopify/Product/1''), JStr (js ''gid://shopify/Product/2'')]"
  let ?arr = "[product_node (js ''gid://shopify/Product/1''), JNull]"
  let ?ok = "client_of (nodes_response ?arr)"
  have bad: "JSON_parse (g_productIds groupBad) = Inl SyntaxError" by code_simp
  have dec: "JSON_parse (g_productIds group2) = Inr ?ids" by code_simp
  have down: "graphql clientDown [] (GetProductNodes ?ids) = Inl (Thrown (js ''network error''))"
    by (simp add: clientDown_def)
  have body: "graphql clientBadBody [] (GetProductNodes ?ids) = Inr \<lparr>json = Inl SyntaxError\<rparr>"
    "json \<lparr>json = Inl SyntaxError\<rparr> = Inl SyntaxError"
    by (simp_all add: clientBadBody_def)
  have null: "graphql (client_of JNull) [] (GetProductNodes ?ids) = Inr \<lparr>json = Inr JNull\<rparr>"
    "json \<lparr>json = Inr JNull\<rparr> = Inr JNull" "node_products JNull = Inl TypeError"
    by (simp_all add: client_of_def node_products_def)
  have ok: "graphql ?ok [] (GetProductNodes ?ids) = Inr \<lparr>json = Inr (nodes_response ?arr)\<rparr>"
    "json \<lparr>json = Inr (nodes_response ?arr)\<rparr> = Inr (nodes_response ?arr)"
    "get_prop (nodes_response ?arr) (js ''data'') = Inr (JObj [(js ''nodes'', JArr ?arr)])"
    "get_prop (JObj [(js ''nodes'', JArr ?arr)]) (js ''nodes'') = Inr (JArr ?arr)"
    "array_of (or_empty (JArr ?arr)) = Inr ?arr"
    by (simp_all add: client_of_def nodes_response_def or_empty_def)
  have un: "JUndefined \<notin> set ?arr" by (simp add: product_node_def)
  have len: "length ?arr \<le> length [js ''gid://shopify/Product/1'', js ''gid://shopify/Product/2'']"
    by simp
  have live: "filter (\<lambda>node. node \<noteq> JNull) ?arr = [product_node (js ''gid://shopify/Product/1'')]"
    by (simp add: product_node_def)
  note t = supplementUpsellGroup_degrades
  have w1: "e_products (fst (supplementUpsellGroup groupBad clientDown [])) = []"
    using t [where g = groupBad and c = clientDown and calls = "[]" and err = SyntaxError] bad
    by blast
  have w2: "e_title (fst (supplementUpsellGroup groupBad clientDown [])) = g_title groupBad"
    using t [where g = groupBad and c = clientDown and calls = "[]"] by blast
  have w3: "e_products (fst (supplementUpsellGroup group2 clientDown [])) = []"
    using t [where g = group2 and c = clientDown and calls = "[]" and ids = ?ids
        and err = "Thrown (js ''network error'')"] dec down
    by blast
  have w4: "e_products (fst (supplementUpsellGroup group2 clientBadBody [])) = []"
    using t [where g = group2 and c = clientBadBody and calls = "[]" and ids = ?ids
        and resp = "\<lparr>json = Inl SyntaxError\<rparr>" and err = SyntaxError] dec body
    by blast
  have w5: "e_products (fst (supplementUpsellGroup group2 (client_of JNull) [])) = []"
    using t [where g = group2 and c = "client_of JNull" and calls = "[]" and ids = ?ids
        and resp = "\<lparr>json = Inr JNull\<rparr>" and rj = JNull and err = TypeError] dec null
    by blast
  note s = t [where g = group2 and c = ?ok and calls = "[]" and ids = ?ids
        and resp = "\<lparr>json = Inr (nodes_response ?arr)\<rparr>" and rj = "nodes_response ?arr"
        and d = "JObj [(js ''nodes'', JArr ?arr)]" and nodes = "JArr ?arr" and arr = ?arr
        and xs = "[JStr (js ''gid://shopify/Product/1''), JStr (js ''gid://shopify/Product/2'')]"]
  have w6: "length (e_products (fst (supplementUpsellGroup group2 ?ok [])))
      \<le> length [js ''gid://shopify/Product/1'', js ''gid://shopify/Product/2'']"
    using s dec ok len by simp
  have w7: "list_all2 (\<lambda>p node. format_product node = Inr p)
        (e_products (fst (supplementUpsellGroup group2 ?ok [])))
        (filter (\<lambda>node. node \<noteq> JNull) ?arr)"
    using s dec ok un by blast
  show ?thesis
    using w1 w2 w3 w4 w5 w6 w7 unfolding live by (intro conjI)
qed

text \<open>
  Claim C1, as stated, fails: the bound by the number of requested identifiers does
  not hold for every behaviour of the catalog client.  One identifier is requested,
  the client answers with two product nodes, and both are returned.
\<close>

theorem supplementUpsellGroup_exceeds_request:
  \<open>JSON_parse (g_productIds group1) = Inr (JArr [JStr (js ''gid://shopify/Product/1'')])
   \<and> graphql (client_of (nodes_response
          [product_node (js ''gid://shopify/Product/1''), product_node (js ''gid://shopify/Product/2'')]))
        [] (GetProductNodes (JArr [JStr (js ''gid://shopify/Product/1'')]))
      = Inr \<lparr>json = Inr (nodes_response
          [product_node (js ''gid://shopify/Product/1''), product_node (js ''gid://shopify/Product/2'')])\<rparr>
   \<and> map p_id (e_products (fst (supplementUpsellGroup group1
        (client_of (nodes_response
          [product_node (js ''gid://shopify/Product/1''), product_node (js ''gid://shopify/Product/2'')]))
        [])))
      = [JStr (js ''gid://shopify/Product/1''), JStr (js ''gid://shopify/Product/2'')]
   \<and> \<not> length (e_products (fst (supplementUpsellGroup group1
        (client_of (nodes_response
          [product_node (js ''gid://shopify/Product/1''), product_node (js ''gid://shopify/Product/2'')]))
        []))) \<le> length [js ''gid://shopify/Product/1'']\<close>
  by code_simp

section \<open>Listing\<close>

lemma supplement_all_each:
  "list_all2 (\<lambda>e g. \<exists>cs. e = fst (supplementUpsellGroup g c cs))
     (fst (supplement_all gs c calls)) gs"
proof (induction gs arbitrary: calls)
  case Nil
  show ?case by simp
next
  case (Cons g gs)
  obtain e calls' where s: "supplementUpsellGroup g c calls = (e, calls')"
    by (cases "supplementUpsellGroup g c calls")
  obtain es calls'' where r: "supplement_all gs c calls' = (es, calls'')"
    by (cases "supplement_all gs c calls'")
  have "\<exists>cs. e = fst (supplementUpsellGroup g c cs)"
    using s by (intro exI [of _ calls]) simp
  moreover have "list_all2 (\<lambda>e g. \<exists>cs. e = fst (supplementUpsellGroup g c cs)) es gs"
    using Cons.IH [of calls'] r by simp
  ultimately show ?case using s r by auto
qed

lemma enriched_fields:
  assumes "list_all2 (\<lambda>e g. \<exists>cs. e = fst (supplementUpsellGroup g c cs)) es gs"
  shows "map e_id es = map g_id gs \<and> map e_shop es = map g_shop gs"
  using assms
  by (induction es gs rule: list_all2_induct) (auto simp: supplementUpsellGroup_fields)

lemma descending_ids:
  "sorted_wrt (\<lambda>a b. b \<le> a) (map g_id (db_findMany shop st))"
proof -
  have "sorted (map (\<lambda>r. - g_id r) (db_findMany shop st))"
    unfolding db_findMany_def by (rule sorted_sort_key)
  then show ?thesis by (simp add: sorted_wrt_map)
qed

lemma getUpsellGroups_eq:
  "getUpsellGroups shop c st calls = supplement_all (db_findMany shop st) c calls"
  by (cases "db_findMany shop st") (simp_all add: getUpsellGroups_def)

text \<open>
  Claim C4.  \<open>getUpsellGroups\<close> returns records of the given shop only, in descending
  order of \<open>id\<close>, one for each stored record of the shop, each the enrichment of its
  record.  When the shop has no record the result is empty and no request has gone
  to the catalog.
\<close>

theorem getUpsellGroups_scoped_descending:
  "(\<forall>e \<in> set (fst (getUpsellGroups shop c st calls)). e_shop e = shop)
   \<and> sorted_wrt (\<lambda>a b. b \<le> a) (map e_id (fst (getUpsellGroups shop c st calls)))
   \<and> set (map e_id (fst (getUpsellGroups shop c st calls)))
       = set (map g_id (filter (\<lambda>r. g_shop r = shop) (db_rows st)))
   \<and> length (fst (getUpsellGroups shop c st calls))
       = length (filter (\<lambda>r. g_shop r = shop) (db_rows st))
   \<and> list_all2 (\<lambda>e g. \<exists>cs. e = fst (supplementUpsellGroup g c cs))
       (fst (getUpsellGroups shop c st calls)) (db_findMany shop st)
   \<and> (filter (\<lambda>r. g_shop r = shop) (db_rows st) = []
        \<longrightarrow> getUpsellGroups shop c st calls = ([], calls))"
proof -
  let ?res = "fst (getUpsellGroups shop c st calls)"
  have each: "list_all2 (\<lambda>e g. \<exists>cs. e = fst (supplementUpsellGroup g c cs)) ?res
      (db_findMany shop st)"
    by (simp add: getUpsellGroups_eq supplement_all_each)
  have ids: "map e_id ?res = map g_id (db_findMany shop st)"
    and shops: "map e_shop ?res = map g_shop (db_findMany shop st)"
    using enriched_fields [OF each] by simp_all
  have "\<forall>s \<in> set (map g_shop (db_findMany shop st)). s = shop"
    by (auto simp: db_findMany_def)
  then have c1: "\<forall>e \<in> set ?res. e_shop e = shop"
    unfolding shops [symmetric] by simp
  have c2: "sorted_wrt (\<lambda>a b. b \<le> a) (map e_id ?res)"
    unfolding ids by (rule descending_ids)
  have c3: "set (map e_id ?res) = set (map g_id (filter (\<lambda>r. g_shop r = shop) (db_rows st)))"
    unfolding ids by (simp add: db_findMany_def)
  have "length ?res = length (db_findMany shop st)"
    using each by (rule list_all2_lengthD)
  then have c4: "length ?res = length (filter (\<lambda>r. g_shop r = shop) (db_rows st))"
    by (simp add: db_findMany_def)
  have c5: "filter (\<lambda>r. g_shop r = shop) (db_rows st) = []
        \<longrightarrow> getUpsellGroups shop c st calls = ([], calls)"
    by (simp add: getUpsellGroups_def db_findMany_def)
  show ?thesis by (intro conjI c1 c2 c3 c4 each c5)
qed

theorem getUpsellGroups_scoped_descending_witness:
  "map e_shop (fst (getUpsellGroups shopA clientDown db3 [])) = [shopA, shopA]
   \<and> map e_id (fst (getUpsellGroups shopA clientDown db3 [])) = [3, 1]
   \<and> filter (\<lambda>r. g_shop r = shopC) (db_rows db3) = []
   \<and> getUpsellGroups shopC clientDown db3 [] = ([], [])"
proof -
  let ?res = "fst (getUpsellGroups shopA clientDown db3 [])"
  have ne: "shopA \<noteq> shopC" "shopB \<noteq> shopC" "shopA \<noteq> shopB"
    by (simp_all add: shopA_def shopB_def shopC_def js_def)
  have rowsA: "filter (\<lambda>r. g_shop r = shopA) (db_rows db3) = [db_rows db3 ! 0, db_rows db3 ! 2]"
    using ne by (simp add: db3_def)
  have idsA: "set (map g_id (filter (\<lambda>r. g_shop r = shopA) (db_rows db3))) = {1, 3}"
    "length (filter (\<lambda>r. g_shop r = shopA) (db_rows db3)) = 2"
    unfolding rowsA by (simp_all add: db3_def)
  have rowsC: "filter (\<lambda>r. g_shop r = shopC) (db_rows db3) = []"
    using ne by (simp add: db3_def)
  note a = getUpsellGroups_scoped_descending [of shopA clientDown db3 "[]"]
  note c = getUpsellGroups_scoped_descending [of shopC clientDown db3 "[]"]
  have shops: "\<forall>e \<in> set ?res. e_shop e = shopA"
    using a by blast
  have desc: "sorted_wrt (\<lambda>a b. b \<le> a) (map e_id ?res)"
    using a by blast
  have ids: "set (map e_id ?res) = {1, 3}"
    using a idsA(1) by simp
  have "length ?res = 2"
    using a idsA(2) by simp
  then obtain x y where xy: "?res = [x, y]"
    by (auto simp: length_Suc_conv numeral_2_eq_2)
  have w1: "map e_shop ?res = [shopA, shopA]"
    using shops unfolding xy by simp
  have "e_id y \<le> e_id x" and "{e_id x, e_id y} = {1, 3}"
    using desc ids unfolding xy by simp_all
  then have "e_id x = 3 \<and> e_id y = 1"
    by (auto simp: doubleton_eq_iff)
  then have w2: "map e_id ?res = [3, 1]"
    unfolding xy by simp
  have w3: "getUpsellGroups shopC clientDown db3 [] = ([], [])"
    using c rowsC by blast
  show ?thesis by (intro conjI w1 w2 rowsC w3)
qed

section \<open>Search\<close>

text \<open>
  Claim C9.  \<open>searchProducts\<close> sends one request to the catalog, the search document
  with page size 10 and the pattern built from the query text.  When the catalog
  call throws, when \<open>json()\<close> throws and when reading the response throws, the
  function throws the same error; it returns products only when none of the three
  threw.
\<close>

theorem searchProducts_propagates:
  fixes shop query c calls
  defines "request \<equiv> SearchProducts 10 (js ''title:*'' @ query @ js ''*'')"
  shows
   "snd (searchProducts shop query c calls) = calls @ [request]
    \<and> (graphql c calls request = Inl err \<longrightarrow> fst (searchProducts shop query c calls) = Inl err)
    \<and> (graphql c calls request = Inr resp \<and> json resp = Inl err
         \<longrightarrow> fst (searchProducts shop query c calls) = Inl err)
    \<and> (graphql c calls request = Inr resp \<and> json resp = Inr rj
         \<and> search_products_of rj = Inl err
         \<longrightarrow> fst (searchProducts shop query c calls) = Inl err)
    \<and> (fst (searchProducts shop query c calls) = Inr ps
         \<longrightarrow> (\<exists>resp rj. graphql c calls request = Inr resp \<and> json resp = Inr rj
                \<and> search_products_of rj = Inr ps))"
  unfolding request_def
  by (auto simp: searchProducts_def Let_def split: sum.splits)

theorem searchProducts_propagates_witness:
  "searchProducts shopA (js ''shirt'') clientDown []
     = (Inl (Thrown (js ''network error'')), [SearchProducts 10 (js ''title:*shirt*'')])
   \<and> fst (searchProducts shopA (js ''shirt'') clientBadBody []) = Inl SyntaxError
   \<and> fst (searchProducts shopA (js ''shirt'') (client_of JNull) []) = Inl TypeError
   \<and> fst (searchProducts shopA (js ''shirt'')
        (client_of (JObj [(js ''data'', JObj [(js ''products'', JObj [(js ''nodes'', JArr [JNull])])])]))
        []) = Inl TypeError"
proof -
  let ?req = "SearchProducts 10 (js ''title:*'' @ js ''shirt'' @ js ''*'')"
  let ?rj = "JObj [(js ''data'', JObj [(js ''products'', JObj [(js ''nodes'', JArr [JNull])])])]"
  have q: "js ''title:*'' @ js ''shirt'' @ js ''*'' = js ''title:*shirt*''"
    by (simp add: js_def)
  have down: "graphql clientDown [] ?req = Inl (Thrown (js ''network error''))"
    by (simp add: clientDown_def)
  have body: "graphql clientBadBody [] ?req = Inr \<lparr>json = Inl SyntaxError\<rparr>
      \<and> json \<lparr>json = Inl SyntaxError\<rparr> = Inl SyntaxError"
    by (simp add: clientBadBody_def)
  have null: "graphql (client_of JNull) [] ?req = Inr \<lparr>json = Inr JNull\<rparr>
      \<and> json \<lparr>json = Inr JNull\<rparr> = Inr JNull \<and> search_products_of JNull = Inl TypeError"
    by (simp add: client_of_def search_products_of_def)
  have nn: "graphql (client_of ?rj) [] ?req = Inr \<lparr>json = Inr ?rj\<rparr>
      \<and> json \<lparr>json = Inr ?rj\<rparr> = Inr ?rj \<and> search_products_of ?rj = Inl TypeError"
    by (simp add: client_of_def search_products_of_def or_empty_def format_product_def js_def)
  note t = searchProducts_propagates
  have w1: "searchProducts shopA (js ''shirt'') clientDown []
     = (Inl (Thrown (js ''network error'')), [SearchProducts 10 (js ''title:*shirt*'')])"
    using t [where shop = shopA and query = "js ''shirt''" and c = clientDown and calls = "[]"
        and err = "Thrown (js ''network error'')"] down
    unfolding q by (simp add: prod_eq_iff)
  have w2: "fst (searchProducts shopA (js ''shirt'') clientBadBody []) = Inl SyntaxError"
    using t [where shop = shopA and query = "js ''shirt''" and c = clientBadBody and calls = "[]"
        and resp = "\<lparr>json = Inl SyntaxError\<rparr>" and err = SyntaxError] body
    by blast
  have w3: "fst (searchProducts shopA (js ''shirt'') (client_of JNull) []) = Inl TypeError"
    using t [where shop = shopA and query = "js ''shirt''" and c = "client_of JNull" and calls = "[]"
        and resp = "\<lparr>json = Inr JNull\<rparr>" and rj = JNull and err = TypeError] null
    by blast
  have w4: "fst (searchProducts shopA (js ''shirt'') (client_of ?rj) []) = Inl TypeError"
    using t [where shop = shopA and query = "js ''shirt''" and c = "client_of ?rj" and calls = "[]"
        and resp = "\<lparr>json = Inr ?rj\<rparr>" and rj = ?rj and err = TypeError] nn
    by blast
  show ?thesis by (intro conjI w1 w2 w3 w4)
qed

section \<open>The public endpoint\<close>

text \<open>
  Claim C5 asks for a response with status 401 and body \<open>{error: "Unauthorized"}\<close>
  whenever the verification of the token fails or yields no session, and for no
  exception.  The loader does not do that.  When the authentication throws, the
  loader throws the same error.  When the authentication result has no \<open>session\<close>
  property, or has \<open>null\<close> there, destructuring it throws a \<open>TypeError\<close> before the
  test of the session is reached.  The 401 response is built only when that
  property holds a value that itself has no truthy \<open>session\<close>.
\<close>

theorem loader_throws_without_session:
  "loader (Inl e) found = Inl e
   \<and> loader (Inr \<lparr>cr_session = JUndefined, cr_cors = cors\<rparr>) found = Inl TypeError
   \<and> loader (Inr \<lparr>cr_session = JNull, cr_cors = cors\<rparr>) found = Inl TypeError
   \<and> loader (Inr \<lparr>cr_session = JObj [], cr_cors = CorsHolder (Some f)\<rparr>) found
       = Inr (f \<lparr>status = 401, body = JObj [(js ''error'', JStr (js ''Unauthorized''))]\<rparr>)"
  by (simp add: loader_def call_cors_def)

end
